theory Spec2Isabelle
  imports Complex_Main
begin

section \<open>JavaScript values\<close>

text \<open>
  The program of \<^verbatim>\<open>src/app.js\<close> talks to three HTTP services and inspects the JSON they
  answer. A value of the language is a \<open>jsval\<close>: what \<^verbatim>\<open>JSON.parse\<close> can produce,
  \<^verbatim>\<open>undefined\<close> (the result of reading a property that is not there), and a built-in
  method found on a prototype (reading \<^verbatim>\<open>values\<close> from an array gives
  \<^verbatim>\<open>Array.prototype.values\<close>). A number is the exact value of the double. An object is the
  list of its own properties, each key once.

  Text is a \<open>string\<close>: a list of code units, here the code units below 256. The pictographs
  that open some console messages in the source lie outside this range; they are left out of
  the message literals, with the blank that follows them. Nothing below depends on them.
\<close>

datatype jsval =
    JUndefined
  | JNull
  | JBool bool
  | JNum real
  | JStr string
  | JArr "jsval list"
  | JObj "(string \<times> jsval) list"
  | JBuiltin string

text \<open>
  A thrown value: \<^verbatim>\<open>new Error(msg)\<close>, a \<^verbatim>\<open>TypeError\<close> or a \<^verbatim>\<open>RangeError\<close> raised by the
  engine, or the error with
  which an axios call rejects. The latter carries \<^verbatim>\<open>error.response\<close> (status and data) when
  the server answered with a status outside 2xx, and no response when the request never got an
  answer (network failure, timeout).
\<close>

datatype error =
    Error string
  | TypeError string
  | RangeError string
  | AxiosError string "(int \<times> jsval) option"

fun message :: "error \<Rightarrow> string" where
  "message (Error m) = m"
| "message (TypeError m) = m"
| "message (RangeError m) = m"
| "message (AxiosError m r) = m"

fun response :: "error \<Rightarrow> (int \<times> jsval) option" where
  "response (AxiosError m r) = r"
| "response e = None"

definition response_status :: "error \<Rightarrow> jsval" where
  \<comment> \<open>\<^verbatim>\<open>error.response?.status\<close>\<close>
  "response_status e = (case response e of None \<Rightarrow> JUndefined | Some (s, d) \<Rightarrow> JNum (of_int s))"

definition response_data :: "error \<Rightarrow> jsval" where
  \<comment> \<open>\<^verbatim>\<open>error.response?.data\<close>\<close>
  "response_data e = (case response e of None \<Rightarrow> JUndefined | Some (s, d) \<Rightarrow> d)"

definition nullish :: "jsval \<Rightarrow> bool" where
  "nullish v = (v = JUndefined \<or> v = JNull)"

fun truthy :: "jsval \<Rightarrow> bool" where
  "truthy JUndefined = False"
| "truthy JNull = False"
| "truthy (JBool b) = b"
| "truthy (JNum x) = (x \<noteq> 0)"
| "truthy (JStr s) = (s \<noteq> [])"
| "truthy (JArr xs) = True"
| "truthy (JObj kvs) = True"
| "truthy (JBuiltin f) = True"

text \<open>
  Reading property \<open>k\<close> of a value that is neither \<^verbatim>\<open>null\<close> nor \<^verbatim>\<open>undefined\<close>. The source
  reads the keys \<^verbatim>\<open>embedding\<close>, \<^verbatim>\<open>values\<close>, \<^verbatim>\<open>result\<close>, \<^verbatim>\<open>payload\<close>, \<^verbatim>\<open>text\<close>,
  \<^verbatim>\<open>candidates\<close>, \<^verbatim>\<open>content\<close>, \<^verbatim>\<open>parts\<close> and the index \<^verbatim>\<open>0\<close>; of these, an array has the
  index and inherits \<^verbatim>\<open>values\<close>, a string has the index, and an object has what its own
  properties give.
\<close>

fun read_prop :: "jsval \<Rightarrow> string \<Rightarrow> jsval" where
  "read_prop (JObj kvs) k = (case map_of kvs k of None \<Rightarrow> JUndefined | Some v \<Rightarrow> v)"
| "read_prop (JArr xs) k =
     (if k = ''0'' then (case xs of [] \<Rightarrow> JUndefined | x # _ \<Rightarrow> x)
      else if k = ''values'' then JBuiltin ''values''
      else JUndefined)"
| "read_prop (JStr s) k =
     (if k = ''0'' then (case s of [] \<Rightarrow> JUndefined | c # _ \<Rightarrow> JStr [c]) else JUndefined)"
| "read_prop v k = JUndefined"

definition cannot_read :: "jsval \<Rightarrow> string \<Rightarrow> error" where
  "cannot_read v k =
     TypeError (''Cannot read properties of '' @ (if v = JNull then ''null'' else ''undefined'')
                @ '' (reading '' @ [CHR 0x27] @ k @ [CHR 0x27] @ '')'')"

definition get :: "jsval \<Rightarrow> string \<Rightarrow> error + jsval" where
  \<comment> \<open>\<^verbatim>\<open>v.k\<close>\<close>
  "get v k = (if nullish v then Inl (cannot_read v k) else Inr (read_prop v k))"

definition opt :: "jsval \<Rightarrow> string \<Rightarrow> jsval" where
  \<comment> \<open>\<^verbatim>\<open>v?.k\<close>\<close>
  "opt v k = (if nullish v then JUndefined else read_prop v k)"

fun join :: "string \<Rightarrow> string list \<Rightarrow> string" where
  "join sep [] = []"
| "join sep [x] = x"
| "join sep (x # y # ys) = x @ sep @ join sep (y # ys)"

text \<open>
  \<^verbatim>\<open>ToString\<close>, as \<^verbatim>\<open>Array.prototype.join\<close> applies it to an element. An object is
  converted by the \<^verbatim>\<open>toString\<close> it has: the inherited one gives \<^verbatim>\<open>[object Object]\<close>; an own
  property of that name, which in parsed JSON is never a function, leaves no way to convert the
  object, and the engine throws a \<^verbatim>\<open>TypeError\<close>. An array is converted by joining its
  elements with a comma, \<^verbatim>\<open>null\<close> and \<^verbatim>\<open>undefined\<close> counting as empty. How the engine prints a
  number is a parameter \<open>ns\<close>.
\<close>

fun to_string :: "(real \<Rightarrow> string) \<Rightarrow> jsval \<Rightarrow> error + string"
  and to_strings :: "(real \<Rightarrow> string) \<Rightarrow> jsval list \<Rightarrow> error + string list"
where
  "to_string ns JUndefined = Inr ''undefined''"
| "to_string ns JNull = Inr ''null''"
| "to_string ns (JBool b) = Inr (if b then ''true'' else ''false'')"
| "to_string ns (JNum x) = Inr (ns x)"
| "to_string ns (JStr s) = Inr s"
| "to_string ns (JArr xs) =
     (case to_strings ns xs of Inl e \<Rightarrow> Inl e | Inr ss \<Rightarrow> Inr (join '','' ss))"
| "to_string ns (JObj kvs) =
     (if map_of kvs ''toString'' \<noteq> None
      then Inl (TypeError ''Cannot convert object to primitive value'')
      else Inr ''[object Object]'')"
| "to_string ns (JBuiltin f) = Inr (''function '' @ f @ ''() { [native code] }'')"
| "to_strings ns [] = Inr []"
| "to_strings ns (x # xs) =
     (case (if x = JUndefined \<or> x = JNull then Inr [] else to_string ns x) of
        Inl e \<Rightarrow> Inl e
      | Inr s \<Rightarrow> (case to_strings ns xs of Inl e \<Rightarrow> Inl e | Inr ss \<Rightarrow> Inr (s # ss)))"

definition array_join :: "(real \<Rightarrow> string) \<Rightarrow> string \<Rightarrow> jsval list \<Rightarrow> error + string" where
  \<comment> \<open>\<^verbatim>\<open>xs.join(sep)\<close>\<close>
  "array_join ns sep xs =
     (case to_strings ns xs of Inl e \<Rightarrow> Inl e | Inr ss \<Rightarrow> Inr (join sep ss))"

definition nl :: string where
  "nl = [CHR 0x0A]"

subsection \<open>Strings of the interactive loop\<close>

definition is_space :: "char \<Rightarrow> bool" where
  \<comment> \<open>the white space and line terminators below 256 that \<^verbatim>\<open>trim\<close> removes\<close>
  "is_space c = (of_char c \<in> {9, 10, 11, 12, 13, 32, 160 :: nat})"

definition trim :: "string \<Rightarrow> string" where
  "trim s = rev (dropWhile is_space (rev (dropWhile is_space s)))"

definition to_lower_char :: "char \<Rightarrow> char" where
  "to_lower_char c =
     (let n = of_char c :: nat
      in if (65 \<le> n \<and> n \<le> 90) \<or> (192 \<le> n \<and> n \<le> 222 \<and> n \<noteq> 215)
         then char_of (n + 32) else c)"

definition toLowerCase :: "string \<Rightarrow> string" where
  "toLowerCase s = map to_lower_char s"

section \<open>Segmenter\<close>

text \<open>
  \<^verbatim>\<open>text.slice(start, end)\<close>: a negative index counts from the end, both are clamped to the
  string, and an end before the start gives the empty string.
\<close>

definition slice :: "'a list \<Rightarrow> int \<Rightarrow> int \<Rightarrow> 'a list" where
  "slice xs start fin =
     (let len = int (length xs);
          from = (if start < 0 then max (len + start) 0 else min start len);
          to = (if fin < 0 then max (len + fin) 0 else min fin len)
      in take (nat (to - from)) (drop (nat from) xs))"

text \<open>
  The loop of \<^verbatim>\<open>chunkText\<close>, lines 23 to 25, on arrays that can grow without bound. This
  is the loop as long as the array of chunks stays within what the engine can hold, which is
  the case of every run with a size \<open>> 0\<close> on a text the engine can hold; the value \<open>None\<close>
  stands for a run that this idealisation never ends.
\<close>

partial_function (option)
  chunk_loop :: "'a list \<Rightarrow> int \<Rightarrow> int \<Rightarrow> 'a list list \<Rightarrow> 'a list list option"
where
  "chunk_loop text sz i chunks =
     (if i < int (length text)
      then chunk_loop text sz (i + sz) (chunks @ [slice text i (i + sz)])
      else Some chunks)"

declare chunk_loop.simps [code]

definition chunkText :: "'a list \<Rightarrow> int \<Rightarrow> 'a list list option" where
  \<comment> \<open>the caller of the source passes the size; left out, it is 500\<close>
  "chunkText text sz = chunk_loop text sz 0 []"

text \<open>
  The same loop on an engine whose arrays hold at most \<open>cap\<close> elements (\<open>2^32 - 1\<close> by the
  language, less in practice): \<^verbatim>\<open>chunks.push\<close> on a full array throws
  \<^verbatim>\<open>RangeError: Invalid array length\<close>. This loop ends for every size: each turn either
  leaves it or fills one more place of the array.
\<close>

function chunk_loop_capped ::
  "nat \<Rightarrow> 'a list \<Rightarrow> int \<Rightarrow> int \<Rightarrow> 'a list list \<Rightarrow> error + 'a list list"
where
  "chunk_loop_capped cap text sz i chunks =
     (if i < int (length text)
      then (if length chunks < cap
            then chunk_loop_capped cap text sz (i + sz) (chunks @ [slice text i (i + sz)])
            else Inl (RangeError ''Invalid array length''))
      else Inr chunks)"
  by pat_completeness auto
termination
  by (relation "measure (\<lambda>(cap, text, sz, i, chunks). cap - length chunks)") auto

declare chunk_loop_capped.simps [simp del]

definition chunkText_capped :: "nat \<Rightarrow> 'a list \<Rightarrow> int \<Rightarrow> error + 'a list list" where
  "chunkText_capped cap text sz = chunk_loop_capped cap text sz 0 []"

section \<open>The process and its environment\<close>

datatype http_method = GET | POST | PUT

record request =
  meth :: http_method
  url :: string
  body :: jsval
  headers :: "(string \<times> string) list"
  timeout :: "nat option"

text \<open>
  What an axios call comes back with: it resolves with the data of a 2xx response, or
  rejects with a message and the response of the server, when there was one.
\<close>

datatype outcome =
    Resolved jsval
  | Rejected string "(int \<times> jsval) option"

text \<open>
  What the program does not decide: the four variables of \<^verbatim>\<open>process.env\<close> (absent, or a
  string), the outcome of the \<open>n\<close>-th HTTP call of the run, the outcome of reading
  \<^verbatim>\<open>text.txt\<close>, and how the engine prints a number.
\<close>

record env =
  GEMINI_API_KEY :: "string option"
  QDRANT_API_KEY :: "string option"
  QDRANT_HOST :: "string option"
  COLLECTION_NAME :: "string option"
  net :: "nat \<Rightarrow> outcome"
  text_txt :: "error + string"
  number_to_string :: "real \<Rightarrow> string"

datatype event =
    Console_log "jsval list"
  | Console_error "jsval list"
  | Stdout_write string
  | Prompt

text \<open>
  What the program changes: the HTTP requests sent so far, what was written to the terminal,
  the exit code once the process has exited, and whether the line handler of the interactive
  loop is installed.
\<close>

record world =
  sent :: "request list"
  console :: "event list"
  exit_code :: "int option"
  chat_started :: bool

definition initial_world :: world where
  "initial_world = \<lparr>sent = [], console = [], exit_code = None, chat_started = False\<rparr>"

definition falsy_var :: "string option \<Rightarrow> bool" where
  \<comment> \<open>\<^verbatim>\<open>!X\<close> for a variable of the environment\<close>
  "falsy_var x = (x = None \<or> x = Some [])"

definition var_string :: "string option \<Rightarrow> string" where
  \<comment> \<open>a variable of the environment inside a template literal\<close>
  "var_string x = (case x of None \<Rightarrow> ''undefined'' | Some s \<Rightarrow> s)"

definition emit :: "event \<Rightarrow> world \<Rightarrow> world" where
  "emit ev w = w\<lparr>console := console w @ [ev]\<rparr>"

definition process_exit :: "int \<Rightarrow> world \<Rightarrow> world" where
  "process_exit code w = w\<lparr>exit_code := Some code\<rparr>"

definition axios :: "env \<Rightarrow> request \<Rightarrow> world \<Rightarrow> (error + jsval) \<times> world" where
  \<comment> \<open>one HTTP call; the result is \<^verbatim>\<open>res.data\<close>\<close>
  "axios env rq w =
     (let w' = w\<lparr>sent := sent w @ [rq]\<rparr>
      in case net env (length (sent w)) of
           Resolved d \<Rightarrow> (Inr d, w')
         | Rejected m r \<Rightarrow> (Inl (AxiosError m r), w'))"

definition and_then ::
  "(error + 'a) \<times> world \<Rightarrow> ('a \<Rightarrow> world \<Rightarrow> (error + 'b) \<times> world) \<Rightarrow> (error + 'b) \<times> world"
where
  \<comment> \<open>sequencing: an exception skips what follows\<close>
  "and_then r f = (case r of (Inl e, w) \<Rightarrow> (Inl e, w) | (Inr a, w) \<Rightarrow> f a w)"

section \<open>Embedding client\<close>

definition embed_request :: "env \<Rightarrow> string \<Rightarrow> request" where
  "embed_request env text =
     \<lparr>meth = POST,
      url = ''https://generativelanguage.googleapis.com/v1beta/models/embedding-001:embedContent?key=''
            @ var_string (GEMINI_API_KEY env),
      body = JObj [(''model'', JStr ''models/embedding-001''),
                   (''content'', JObj [(''parts'', JArr [JObj [(''text'', JStr text)]])])],
      headers = [],
      timeout = Some 30000\<rparr>"

definition embedding_values :: "jsval \<Rightarrow> error + jsval" where
  \<comment> \<open>\<^verbatim>\<open>res.data.embedding?.values\<close>, checked at line 46\<close>
  "embedding_values d =
     (case get d ''embedding'' of
        Inl e \<Rightarrow> Inl e
      | Inr emb \<Rightarrow>
          if \<not> truthy (opt emb ''values'') then Inl (Error ''Invalid response from Gemini API'')
          else Inr (opt emb ''values''))"

text \<open>
  What the specification calls an embedding vector: a sequence of numbers. The source never
  tests for it.
\<close>

fun numeric_vector :: "jsval \<Rightarrow> bool" where
  "numeric_vector (JArr xs) = list_all (\<lambda>x. case x of JNum r \<Rightarrow> True | _ \<Rightarrow> False) xs"
| "numeric_vector v = False"

fun embed_loop ::
  "env \<Rightarrow> string list \<Rightarrow> jsval list \<Rightarrow> world \<Rightarrow> (error + jsval list) \<times> world"
where
  "embed_loop env [] embeddings w = (Inr embeddings, w)"
| "embed_loop env (text # rest) embeddings w =
     (case axios env (embed_request env text) w of
        (Inl e, w') \<Rightarrow> (Inl e, w')
      | (Inr d, w') \<Rightarrow>
          (case embedding_values d of
             Inl e \<Rightarrow> (Inl e, w')
           | Inr v \<Rightarrow> embed_loop env rest (embeddings @ [v]) w'))"

definition embedWithGemini :: "env \<Rightarrow> string list \<Rightarrow> world \<Rightarrow> (error + jsval list) \<times> world" where
  "embedWithGemini env texts w =
     (case embed_loop env texts [] w of
        (Inl e, w') \<Rightarrow>
          (Inl e, emit (Console_error [JStr ''Error in embedWithGemini:'', JStr (message e)]) w')
      | (Inr embeddings, w') \<Rightarrow> (Inr embeddings, w'))"

section \<open>Vector store client\<close>

definition qdrant_headers :: "env \<Rightarrow> (string \<times> string) list" where
  "qdrant_headers env =
     [(''api-key'', var_string (QDRANT_API_KEY env)), (''Content-Type'', ''application/json'')]"

definition collection_url :: "env \<Rightarrow> string" where
  "collection_url env =
     var_string (QDRANT_HOST env) @ ''/collections/'' @ var_string (COLLECTION_NAME env)"

definition createCollection :: "env \<Rightarrow> nat \<Rightarrow> world \<Rightarrow> (error + unit) \<times> world" where
  \<comment> \<open>the caller of the source passes no dimension, which makes it 768\<close>
  "createCollection env dimension w =
     (case axios env
             \<lparr>meth = PUT, url = collection_url env,
              body = JObj [(''vectors'', JObj [(''size'', JNum (of_nat dimension)),
                                               (''distance'', JStr ''Cosine'')])],
              headers = qdrant_headers env, timeout = Some 10000\<rparr> w of
        (Inr d, w') \<Rightarrow>
          (Inr (), emit (Console_log [JStr ''Collection created or already exists.'']) w')
      | (Inl e, w') \<Rightarrow>
          if response_status e = JNum 409
          then (Inr (), emit (Console_log [JStr ''Collection already exists'']) w')
          else (Inl e, emit (Console_error [JStr ''Error creating collection:'',
                                             JStr (message e)]) w'))"

definition element :: "jsval list \<Rightarrow> nat \<Rightarrow> jsval" where
  \<comment> \<open>\<^verbatim>\<open>xs[i]\<close> on an array\<close>
  "element xs i = (if i < length xs then xs ! i else JUndefined)"

definition point :: "string list \<Rightarrow> jsval list \<Rightarrow> nat \<times> nat \<Rightarrow> jsval" where
  "point texts embeddings = (\<lambda>(i, ident).
     JObj [(''id'', JNum (of_nat ident)),
           (''vector'', element embeddings i),
           (''payload'', JObj [(''text'', element (map JStr texts) i)])])"

definition upsertToQdrant ::
  "env \<Rightarrow> nat list \<Rightarrow> string list \<Rightarrow> jsval list \<Rightarrow> world \<Rightarrow> (error + unit) \<times> world"
where
  "upsertToQdrant env ids texts embeddings w =
     (let points = map (point texts embeddings) (zip [0..<length ids] ids)
      in case axios env
                \<lparr>meth = PUT, url = collection_url env @ ''/points'',
                 body = JObj [(''points'', JArr points)],
                 headers = qdrant_headers env, timeout = Some 30000\<rparr> w of
           (Inr d, w') \<Rightarrow>
             (Inr (), emit (Console_log [JStr (number_to_string env (of_nat (length points))
                                               @ '' embeddings uploaded to Qdrant.'')]) w')
         | (Inl e, w') \<Rightarrow>
             (Inl e, emit (Console_error [JStr ''Error upserting to Qdrant:'',
                                          JStr (message e)]) w'))"

definition separator :: string where
  "separator = nl @ nl @ ''---'' @ nl @ nl"

definition payload_text :: "jsval \<Rightarrow> error + jsval" where
  \<comment> \<open>\<^verbatim>\<open>item.payload?.text\<close>\<close>
  "payload_text item =
     (case get item ''payload'' of Inl e \<Rightarrow> Inl e | Inr p \<Rightarrow> Inr (opt p ''text''))"

fun filter_items :: "jsval list \<Rightarrow> error + jsval list" where
  \<comment> \<open>\<^verbatim>\<open>.filter(item => item.payload?.text)\<close>\<close>
  "filter_items [] = Inr []"
| "filter_items (item # rest) =
     (case payload_text item of
        Inl e \<Rightarrow> Inl e
      | Inr t \<Rightarrow>
          (case filter_items rest of
             Inl e \<Rightarrow> Inl e
           | Inr kept \<Rightarrow> Inr (if truthy t then item # kept else kept)))"

fun map_texts :: "jsval list \<Rightarrow> error + jsval list" where
  \<comment> \<open>\<^verbatim>\<open>.map(item => item.payload.text)\<close>\<close>
  "map_texts [] = Inr []"
| "map_texts (item # rest) =
     (case get item ''payload'' of
        Inl e \<Rightarrow> Inl e
      | Inr p \<Rightarrow>
          (case get p ''text'' of
             Inl e \<Rightarrow> Inl e
           | Inr t \<Rightarrow> (case map_texts rest of Inl e \<Rightarrow> Inl e | Inr ts \<Rightarrow> Inr (t # ts))))"

definition context_of :: "env \<Rightarrow> jsval \<Rightarrow> error + string" where
  \<comment> \<open>lines 136 to 139, on a \<^verbatim>\<open>res.data.result\<close> that passed the check of line 131\<close>
  "context_of env result =
     (case result of
        JArr items \<Rightarrow>
          (case filter_items items of
             Inl e \<Rightarrow> Inl e
           | Inr kept \<Rightarrow>
               (case map_texts kept of
                  Inl e \<Rightarrow> Inl e
                | Inr ts \<Rightarrow> array_join (number_to_string env) separator ts))
      | _ \<Rightarrow> Inl (TypeError ''res.data.result.filter is not a function''))"

definition searchQdrant :: "env \<Rightarrow> jsval \<Rightarrow> nat \<Rightarrow> world \<Rightarrow> (error + string) \<times> world" where
  \<comment> \<open>the caller of the source passes no \<^verbatim>\<open>topK\<close>, which makes it 3\<close>
  "searchQdrant env queryVector topK w =
     (case axios env
             \<lparr>meth = POST, url = collection_url env @ ''/points/search'',
              body = JObj [(''vector'', queryVector), (''limit'', JNum (of_nat topK)),
                           (''with_payload'', JBool True), (''with_vectors'', JBool False)],
              headers = [(''api-key'', var_string (QDRANT_API_KEY env))],
              timeout = None\<rparr> w of
        (Inl e, w') \<Rightarrow> (Inl e, w')
      | (Inr d, w') \<Rightarrow>
          if \<not> truthy (opt d ''result'')
          then (Inl (Error ''Invalid search response from Qdrant''),
                emit (Console_error [JStr ''Qdrant search error:'', d]) w')
          else (context_of env (opt d ''result''), w'))"

section \<open>Answer generator client\<close>

definition fallback_answer :: string where
  "fallback_answer =
     ''Sorry, I couldn't process your request. Please check your API key and network connection.''"

definition answer_path :: "jsval \<Rightarrow> jsval" where
  \<comment> \<open>\<^verbatim>\<open>res.data?.candidates?.[0]?.content?.parts?.[0]?.text\<close>\<close>
  "answer_path d =
     opt (opt (opt (opt (opt (opt d ''candidates'') ''0'') ''content'') ''parts'') ''0'') ''text''"

definition askGemini_try :: "env \<Rightarrow> string \<Rightarrow> string \<Rightarrow> world \<Rightarrow> (error + jsval) \<times> world" where
  \<comment> \<open>the \<^verbatim>\<open>try\<close> block, lines 145 to 173\<close>
  "askGemini_try env query context w =
     (let prompt = ''Context:'' @ nl @ context @ nl @ nl @ ''Question: '' @ query @ nl @ ''Answer:''
      in if falsy_var (GEMINI_API_KEY env)
         then (Inl (Error ''Gemini API key is not configured''), w)
         else
           (case axios env
                   \<lparr>meth = POST,
                    url = ''https://generativelanguage.googleapis.com/v1beta/models/gemini-1.5-flash:generateContent?key=''
                          @ var_string (GEMINI_API_KEY env),
                    body = JObj [(''contents'',
                                  JArr [JObj [(''parts'', JArr [JObj [(''text'', JStr prompt)]]),
                                              (''role'', JStr ''user'')]])],
                    headers = [(''Content-Type'', ''application/json'')],
                    timeout = Some 30000\<rparr> w of
              (Inl e, w') \<Rightarrow> (Inl e, w')
            | (Inr d, w') \<Rightarrow>
                if \<not> truthy (answer_path d)
                then (Inl (Error ''Received empty or unexpected response from Gemini''),
                      emit (Console_error [JStr ''Unexpected Gemini response:'', d]) w')
                else (Inr (answer_path d), w')))"

definition askGemini :: "env \<Rightarrow> string \<Rightarrow> string \<Rightarrow> world \<Rightarrow> (error + jsval) \<times> world" where
  "askGemini env query context w =
     (case askGemini_try env query context w of
        (Inl e, w') \<Rightarrow>
          (Inr (JStr fallback_answer),
           emit (Console_error [JStr (nl @ ''Detailed Gemini API Error:''),
                                JObj [(''message'', JStr (message e)),
                                      (''status'', response_status e),
                                      (''data'', response_data e)]]) w')
      | (Inr a, w') \<Rightarrow> (Inr a, w'))"

section \<open>Pipeline orchestrator\<close>

definition on_close :: "world \<Rightarrow> world" where
  \<comment> \<open>the handler of \<^verbatim>\<open>"close"\<close>, lines 224 to 227\<close>
  "on_close w = process_exit 0 (emit (Console_log [JStr (nl @ ''Goodbye!'')]) w)"

definition turn :: "env \<Rightarrow> string \<Rightarrow> world \<Rightarrow> (error + jsval) \<times> world" where
  \<comment> \<open>the \<^verbatim>\<open>try\<close> block of the line handler, lines 209 to 216\<close>
  "turn env query w =
     and_then (embedWithGemini env [query] (emit (Stdout_write ''Thinking...'') w))
       (\<lambda>queryEmbedding w1.
          and_then (searchQdrant env (element queryEmbedding 0) 3 w1)
            (\<lambda>context w2.
               and_then (askGemini env query context w2)
                 (\<lambda>answer w3.
                    (Inr answer,
                     emit (Console_log [JStr (nl @ ''Gemini:''), answer])
                       (emit (Stdout_write [CHR 0x0D, CHR 0x1B, CHR ''['', CHR ''K'']) w3)))))"

definition on_line :: "env \<Rightarrow> string \<Rightarrow> world \<Rightarrow> world" where
  \<comment> \<open>the handler of \<^verbatim>\<open>"line"\<close>, lines 196 to 222; \<^verbatim>\<open>rl.close()\<close> runs the handler of \<^verbatim>\<open>"close"\<close>\<close>
  "on_line env line w =
     (let query = trim line
      in if toLowerCase query = ''exit'' then on_close w
         else if query = [] then emit Prompt w
         else
           (case turn env query w of
              (Inl err, w') \<Rightarrow>
                emit Prompt (emit (Console_error [JStr (nl @ ''Error:''), JStr (message err)]) w')
            | (Inr answer, w') \<Rightarrow> emit Prompt w'))"

text \<open>
  The interactive loop on the lines typed by the user, one turn after the other; the end of
  the input closes the interface. Nothing runs once the process has exited.
\<close>

fun chat :: "env \<Rightarrow> string list \<Rightarrow> world \<Rightarrow> world" where
  "chat env [] w = on_close w"
| "chat env (line # rest) w =
     (let w' = on_line env line w
      in if exit_code w' \<noteq> None then w' else chat env rest w')"

definition startChat :: "env \<Rightarrow> world \<Rightarrow> (error + unit) \<times> world" where
  "startChat env w =
     (Inr (),
      emit Prompt
        ((emit (Console_log
                 [JStr (nl @ ''You can now chat with your document. Type 'exit' to quit.'' @ nl)]) w)
         \<lparr>chat_started := True\<rparr>))"

definition readFile :: "env \<Rightarrow> world \<Rightarrow> (error + string) \<times> world" where
  "readFile env w = (text_txt env, w)"

definition index_document :: "env \<Rightarrow> string list \<Rightarrow> world \<Rightarrow> (error + unit) \<times> world" where
  \<comment> \<open>lines 241 to 249\<close>
  "index_document env chunks w =
     (let ids = map (\<lambda>i. i + 1) [0..<length chunks]
      in and_then
           (createCollection env 768
              (emit (Console_log [JStr (''Processing ''
                                        @ number_to_string env (of_nat (length chunks))
                                        @ '' chunks...'')]) w))
           (\<lambda>u w1.
              and_then (embedWithGemini env chunks w1)
                (\<lambda>embeddings w2.
                   and_then (upsertToQdrant env ids chunks embeddings w2)
                     (\<lambda>u w3. startChat env w3))))"

definition fatal :: "(error + unit) \<times> world \<Rightarrow> (error + unit) \<times> world" where
  \<comment> \<open>the \<^verbatim>\<open>catch\<close> of lines 250 to 253\<close>
  "fatal r =
     (case r of
        (Inl e, w) \<Rightarrow>
          (Inr (), process_exit 1 (emit (Console_error [JStr ''Fatal error:'', JStr (message e)]) w))
      | (Inr u, w) \<Rightarrow> (Inr u, w))"

definition main :: "env \<Rightarrow> world \<Rightarrow> ((error + unit) \<times> world) option" where
  "main env w =
     (case axios env
             \<lparr>meth = GET,
              url = ''https://generativelanguage.googleapis.com/v1beta/models?key=''
                    @ var_string (GEMINI_API_KEY env),
              body = JUndefined, headers = [], timeout = None\<rparr>
             (emit (Console_log [JStr ''Testing Gemini API connection...'']) w) of
        (Inl error, w1) \<Rightarrow>
          Some (Inl (Error (''Gemini API connection failed: '' @ message error)), w1)
      | (Inr d, w1) \<Rightarrow>
          (case readFile env w1 of
             (Inl e, w2) \<Rightarrow> Some (fatal (Inl e, w2))
           | (Inr text, w2) \<Rightarrow>
               (case chunkText text 500 of
                  None \<Rightarrow> None
                | Some chunks \<Rightarrow> Some (fatal (index_document env chunks w2)))))"

text \<open>
  The module, top to bottom: the check of the environment (line 16), whose exception nothing
  catches, then \<^verbatim>\<open>main()\<close>, whose rejection nothing handles. Either ends the process with
  exit code 1 (for the rejection, this is what Node.js does from version 15 on).
\<close>

definition uncaught :: "error \<Rightarrow> world \<Rightarrow> world" where
  "uncaught e w = process_exit 1 (emit (Console_error [JStr (message e)]) w)"

definition program :: "env \<Rightarrow> world option" where
  "program env =
     (if falsy_var (GEMINI_API_KEY env) \<or> falsy_var (QDRANT_API_KEY env)
         \<or> falsy_var (QDRANT_HOST env) \<or> falsy_var (COLLECTION_NAME env)
      then Some (uncaught (Error ''Missing required environment variables'') initial_world)
      else (case main env initial_world of
              None \<Rightarrow> None
            | Some (Inl e, w) \<Rightarrow> Some (uncaught e w)
            | Some (Inr u, w) \<Rightarrow> Some w))"

definition session :: "env \<Rightarrow> string list \<Rightarrow> world option" where
  \<comment> \<open>a whole run: start-up, then the loop on the typed lines if it was entered\<close>
  "session env lines =
     (case program env of
        None \<Rightarrow> None
      | Some w \<Rightarrow> Some (if chat_started w \<and> exit_code w = None then chat env lines w else w))"

section \<open>Example environments\<close>

text \<open>
  Environments on which the theorems below are run: the four variables set, the file
  \<^verbatim>\<open>text.txt\<close> holding \<^verbatim>\<open>ABCDEFGHIJ\<close>, and the HTTP calls answered from a list, one
  outcome per call, with a network error once the list is used up.
\<close>

definition vector_response :: "jsval \<Rightarrow> outcome" where
  "vector_response v = Resolved (JObj [(''embedding'', JObj [(''values'', v)])])"

definition example_env :: "(nat \<Rightarrow> outcome) \<Rightarrow> env" where
  "example_env script =
     \<lparr>GEMINI_API_KEY = Some ''g'', QDRANT_API_KEY = Some ''q'', QDRANT_HOST = Some ''http://h'',
      COLLECTION_NAME = Some ''c'', net = script, text_txt = Inr ''ABCDEFGHIJ'',
      number_to_string = (\<lambda>x. ''#'')\<rparr>"

fun script :: "outcome list \<Rightarrow> nat \<Rightarrow> outcome" where
  "script [] n = Rejected ''Network Error'' None"
| "script (x # xs) 0 = x"
| "script (x # xs) (Suc n) = script xs n"

definition hit :: "string \<Rightarrow> jsval" where
  "hit t = JObj [(''id'', JNum 1), (''payload'', JObj [(''text'', JStr t)])]"

definition search_response :: "jsval list \<Rightarrow> outcome" where
  "search_response items = Resolved (JObj [(''result'', JArr items)])"



section \<open>Properties of the segmenter\<close>

lemma slice_window:
  assumes "0 \<le> i" and "0 < sz"
  shows "slice xs i (i + sz) = take (nat sz) (drop (nat i) xs)"
proof (cases "i < int (length xs)")
  case True
  show ?thesis
  proof (cases "i + sz \<le> int (length xs)")
    case True
    with assms \<open>i < int (length xs)\<close> show ?thesis
      by (simp add: slice_def Let_def min_def)
  next
    case False
    with assms \<open>i < int (length xs)\<close>
    have "length (drop (nat i) xs) \<le> nat sz"
      and "length (drop (nat i) xs) = nat (int (length xs) - i)"
      by simp_all
    with assms \<open>i < int (length xs)\<close> False show ?thesis
      by (simp add: slice_def Let_def min_def)
  qed
next
  case False
  with assms show ?thesis
    by (simp add: slice_def Let_def min_def)
qed

lemma chunk_loop_pos:
  assumes "0 < sz" and "0 \<le> i"
  shows "\<exists>cs. chunk_loop t sz i chunks = Some (chunks @ cs)
           \<and> concat cs = drop (nat i) t
           \<and> (\<forall>k. Suc k < length cs \<longrightarrow> int (length (cs ! k)) = sz)
           \<and> (cs \<noteq> [] \<longrightarrow> int (length (last cs)) =
                 (if (int (length t) - i) mod sz = 0 then sz else (int (length t) - i) mod sz))
           \<and> (cs = [] \<longleftrightarrow> int (length t) \<le> i)"
  using assms(2)
proof (induction "nat (int (length t) - i)" arbitrary: i chunks rule: less_induct)
  case less
  let ?L = "\<lambda>r. if r mod sz = 0 then sz else r mod sz"
  show ?case
  proof (cases "i < int (length t)")
    case False
    then show ?thesis using less.prems
      by (subst chunk_loop.simps) simp
  next
    case True
    define c where "c = take (nat sz) (drop (nat i) t)"
    have sl: "slice t i (i + sz) = c"
      using slice_window[OF less.prems assms(1)] by (simp add: c_def)
    have "nat (int (length t) - (i + sz)) < nat (int (length t) - i)"
      using True assms(1) by simp
    moreover have "0 \<le> i + sz" using less.prems assms(1) by simp
    ultimately obtain cs where
      run: "chunk_loop t sz (i + sz) (chunks @ [c]) = Some ((chunks @ [c]) @ cs)"
      and cat: "concat cs = drop (nat (i + sz)) t"
      and full: "\<forall>k. Suc k < length cs \<longrightarrow> int (length (cs ! k)) = sz"
      and lst: "cs \<noteq> [] \<longrightarrow> int (length (last cs)) = ?L (int (length t) - (i + sz))"
      and emp: "cs = [] \<longleftrightarrow> int (length t) \<le> i + sz"
      using less.hyps[of "i + sz" "chunks @ [c]"] by blast
    have step: "chunk_loop t sz i chunks = Some (chunks @ (c # cs))"
      using True run sl by (subst chunk_loop.simps) simp
    have "nat (i + sz) = nat i + nat sz"
      using less.prems assms(1) by (simp add: nat_add_distrib)
    then have cat': "concat (c # cs) = drop (nat i) t"
      using cat by (simp add: c_def add.commute[of "nat i"] flip: drop_drop)
    have lenc: "int (length c) = min sz (int (length t) - i)"
      using True less.prems assms(1) by (auto simp: c_def min_def)
    have full': "\<forall>k. Suc k < length (c # cs) \<longrightarrow> int (length ((c # cs) ! k)) = sz"
    proof (intro allI impI)
      fix k assume k: "Suc k < length (c # cs)"
      then have "cs \<noteq> []" by auto
      then have "i + sz < int (length t)" using emp by simp
      then have "int (length c) = sz" using lenc by simp
      then show "int (length ((c # cs) ! k)) = sz"
        using k full by (cases k) simp_all
    qed
    have lst': "int (length (last (c # cs))) = ?L (int (length t) - i)"
    proof (cases "cs = []")
      case True
      then have r: "int (length t) - i \<le> sz" using emp by simp
      then have "int (length c) = int (length t) - i" using lenc by simp
      moreover have "?L (int (length t) - i) = int (length t) - i"
        using r \<open>i < int (length t)\<close> assms(1)
        by (cases "int (length t) - i = sz") simp_all
      ultimately show ?thesis using True by simp
    next
      case False
      have "(int (length t) - (i + sz)) mod sz = (int (length t) - i) mod sz"
        by (metis diff_diff_eq mod_diff_right_eq mod_self diff_zero)
      then have "?L (int (length t) - (i + sz)) = ?L (int (length t) - i)"
        by simp
      then show ?thesis using False lst by simp
    qed
    show ?thesis
      using step cat' full' lst' True by (intro exI[of _ "c # cs"]) simp
  qed
qed

lemma chunkText_pos:
  assumes "0 < sz"
  shows "\<exists>cs. chunkText t sz = Some cs \<and> concat cs = t
           \<and> (\<forall>k. Suc k < length cs \<longrightarrow> int (length (cs ! k)) = sz)
           \<and> (cs \<noteq> [] \<longrightarrow> int (length (last cs)) =
                 (if int (length t) mod sz = 0 then sz else int (length t) mod sz))
           \<and> (cs = [] \<longleftrightarrow> t = [])"
  using chunk_loop_pos[OF assms, of 0 t "[]"] by (simp add: chunkText_def cong: if_cong)

text \<open>
  Claim C1. For every text \<open>T\<close> and every size \<open>sz > 0\<close>, \<open>chunkText T sz\<close> returns a
  list of chunks whose concatenation in order is \<open>T\<close>; every chunk but the last has length
  \<open>sz\<close>; the last has length \<open>length T mod sz\<close>, or \<open>sz\<close> when \<open>sz\<close> divides the length;
  and the empty text gives the empty list.
\<close>

theorem chunkText_partition:
  assumes "0 < sz"
  shows "\<exists>cs. chunkText T sz = Some cs
           \<and> concat cs = T
           \<and> (\<forall>k. Suc k < length cs \<longrightarrow> int (length (cs ! k)) = sz)
           \<and> (cs \<noteq> [] \<longrightarrow> int (length (last cs)) =
                 (if int (length T) mod sz = 0 then sz else int (length T) mod sz))
           \<and> (T = [] \<longrightarrow> cs = [])"
  using chunkText_pos[OF assms, of T] by auto

theorem chunkText_partition_witness:
  "(0::int) < 4 \<and>
   (\<exists>cs. chunkText ''ABCDEFGHIJ'' 4 = Some cs
      \<and> cs = [''ABCD'', ''EFGH'', ''IJ'']
      \<and> concat cs = ''ABCDEFGHIJ''
      \<and> (\<forall>k. Suc k < length cs \<longrightarrow> int (length (cs ! k)) = 4)
      \<and> int (length (last cs)) = 2)"
  using chunkText_partition[of 4 "''ABCDEFGHIJ''"]
  by (simp add: chunkText_def chunk_loop.simps slice_def)

lemma chunk_loop_capped_stuck:
  assumes "sz \<le> 0" and "i < int (length t)"
  shows "chunk_loop_capped cap t sz i chunks = Inl (RangeError ''Invalid array length'')"
  using assms(2)
proof (induction "cap - length chunks" arbitrary: i chunks rule: less_induct)
  case less
  show ?case
  proof (cases "length chunks < cap")
    case True
    let ?next = "chunks @ [slice t i (i + sz)]"
    have "cap - length ?next < cap - length chunks" using True by simp
    moreover have "i + sz < int (length t)" using less.prems assms(1) by simp
    ultimately have "chunk_loop_capped cap t sz (i + sz) ?next
                       = Inl (RangeError ''Invalid array length'')"
      by (rule less.hyps)
    then show ?thesis using True less.prems by (subst chunk_loop_capped.simps) simp
  next
    case False
    then show ?thesis using less.prems by (subst chunk_loop_capped.simps) simp
  qed
qed

lemma chunk_loop_capped_agrees:
  assumes "chunk_loop t sz i chunks = Some r"
  shows "length chunks \<le> length r
         \<and> (\<forall>cap. length r \<le> cap \<longrightarrow> chunk_loop_capped cap t sz i chunks = Inr r)"
proof (rule chunk_loop.raw_induct
    [where P = "\<lambda>t sz i chunks r. length chunks \<le> length r
         \<and> (\<forall>cap. length r \<le> cap \<longrightarrow> chunk_loop_capped cap t sz i chunks = Inr r)",
     OF _ assms])
  fix loop :: "'a list \<Rightarrow> int \<Rightarrow> int \<Rightarrow> 'a list list \<Rightarrow> 'a list list option"
    and t sz i chunks r
  assume IH: "\<And>t sz i chunks r. loop t sz i chunks = Some r \<Longrightarrow>
                length chunks \<le> length r
                \<and> (\<forall>cap. length r \<le> cap \<longrightarrow> chunk_loop_capped cap t sz i chunks = Inr r)"
    and body: "(if i < int (length t)
                then loop t sz (i + sz) (chunks @ [slice t i (i + sz)])
                else Some chunks) = Some r"
  show "length chunks \<le> length r
         \<and> (\<forall>cap. length r \<le> cap \<longrightarrow> chunk_loop_capped cap t sz i chunks = Inr r)"
  proof (cases "i < int (length t)")
    case True
    with body have "loop t sz (i + sz) (chunks @ [slice t i (i + sz)]) = Some r" by simp
    from IH[OF this] have len: "length (chunks @ [slice t i (i + sz)]) \<le> length r"
      and run: "\<forall>cap. length r \<le> cap \<longrightarrow>
                  chunk_loop_capped cap t sz (i + sz) (chunks @ [slice t i (i + sz)]) = Inr r"
      by simp_all
    have "chunk_loop_capped cap t sz i chunks = Inr r" if "length r \<le> cap" for cap
    proof -
      from len that have "length chunks < cap" by simp
      with True run that show ?thesis by (subst chunk_loop_capped.simps) simp
    qed
    with len show ?thesis by simp
  next
    case False
    with body have "r = chunks" by simp
    with False show ?thesis by (subst chunk_loop_capped.simps) simp
  qed
qed

text \<open>
  Claim C2 says that a size \<open>\<le> 0\<close> is rejected with an error. \<open>chunkText\<close> has no check
  of the size: on the empty text the loop is not entered and the empty list is returned,
  whatever the size and whatever the arrays of the engine can hold.
\<close>

theorem chunkText_no_rejection_counterexample:
  "chunkText '''' 0 = Some [] \<and> chunkText '''' (- 1) = Some []
   \<and> chunkText_capped 4294967295 '''' 0 = Inr []
   \<and> chunkText_capped 4294967295 '''' (- 1) = Inr []"
  by (simp add: chunkText_def chunk_loop.simps chunkText_capped_def chunk_loop_capped.simps)

text \<open>
  Claim C2, amended. The size is not checked. For a size \<open>\<le> 0\<close>, \<open>chunkText\<close> returns the
  empty list on the empty text, with no error; on any other text the loop never advances and
  ends only when the array of chunks is full, with the engine's
  \<^verbatim>\<open>RangeError: Invalid array length\<close>. For a size \<open>> 0\<close> it returns its list of chunks,
  whenever the array can hold them.
\<close>

theorem chunkText_size_unchecked:
  "(sz \<le> 0 \<longrightarrow>
      chunkText_capped cap T sz
        = (if T = [] then Inr [] else Inl (RangeError ''Invalid array length'')))
   \<and> (0 < sz \<longrightarrow>
        (\<exists>cs. chunkText T sz = Some cs
           \<and> (length cs \<le> cap \<longrightarrow> chunkText_capped cap T sz = Inr cs)))"
proof (intro conjI impI)
  assume neg: "sz \<le> 0"
  show "chunkText_capped cap T sz
          = (if T = [] then Inr [] else Inl (RangeError ''Invalid array length''))"
  proof (cases "T = []")
    case True
    then show ?thesis by (simp add: chunkText_capped_def chunk_loop_capped.simps)
  next
    case False
    then have "0 < int (length T)" by simp
    with neg False show ?thesis
      by (simp add: chunkText_capped_def chunk_loop_capped_stuck)
  qed
next
  assume "0 < sz"
  then obtain cs where cs: "chunkText T sz = Some cs"
    using chunkText_pos[of sz T] by blast
  then have "\<forall>cap. length cs \<le> cap \<longrightarrow> chunk_loop_capped cap T sz 0 [] = Inr cs"
    using chunk_loop_capped_agrees[of T sz 0 "[]" cs] by (simp add: chunkText_def)
  with cs show "\<exists>cs. chunkText T sz = Some cs
           \<and> (length cs \<le> cap \<longrightarrow> chunkText_capped cap T sz = Inr cs)"
    by (simp add: chunkText_capped_def)
qed

theorem chunkText_size_unchecked_witness:
  "(0::int) \<le> 0
   \<and> chunkText_capped 3 ''ab'' 0 = Inl (RangeError ''Invalid array length'')
   \<and> chunkText_capped 3 [] 0 = (Inr [] :: error + string list)
   \<and> (0::int) < 4
   \<and> chunkText_capped 3 ''ABCDEFGHIJ'' 4 = Inr [''ABCD'', ''EFGH'', ''IJ'']"
proof -
  have run: "chunkText ''ABCDEFGHIJ'' 4 = Some [''ABCD'', ''EFGH'', ''IJ'']"
    by (simp add: chunkText_def chunk_loop.simps slice_def)
  from chunkText_size_unchecked[of 4 3 "''ABCDEFGHIJ''"] run
  have "chunkText_capped 3 ''ABCDEFGHIJ'' 4 = Inr [''ABCD'', ''EFGH'', ''IJ'']"
    by simp
  then show ?thesis
    using chunkText_size_unchecked[of 0 3 "''ab''"]
          chunkText_size_unchecked[of 0 3 "[] :: string"]
    by simp
qed

section \<open>Properties of the embedding client\<close>

lemmas fixture_simps =
  example_env_def vector_response_def search_response_def hit_def initial_world_def

lemmas value_simps = get_def opt_def nullish_def answer_path_def

lemmas string_simps = toLowerCase_def trim_def is_space_def to_lower_char_def char_of_eq_iff

lemma axios_world [simp]:
  "sent (snd (axios env rq w)) = sent w @ [rq]"
  "console (snd (axios env rq w)) = console w"
  "exit_code (snd (axios env rq w)) = exit_code w"
  "chat_started (snd (axios env rq w)) = chat_started w"
  by (simp_all add: axios_def Let_def split: outcome.splits)

lemma axios_result:
  "fst (axios env rq w) =
     (case net env (length (sent w)) of Resolved d \<Rightarrow> Inr d | Rejected m r \<Rightarrow> Inl (AxiosError m r))"
  by (simp add: axios_def Let_def split: outcome.splits)

lemma emit_world [simp]:
  "sent (emit ev w) = sent w"
  "console (emit ev w) = console w @ [ev]"
  "exit_code (emit ev w) = exit_code w"
  "chat_started (emit ev w) = chat_started w"
  by (simp_all add: emit_def)

lemma embedding_values_Inr:
  "embedding_values d = Inr v \<longleftrightarrow> v = opt (opt d ''embedding'') ''values'' \<and> truthy v"
  by (auto simp: embedding_values_def get_def opt_def nullish_def)

lemma embed_loop_Inr:
  "embed_loop env texts acc w = (Inr vs, w') \<Longrightarrow>
   \<exists>new. vs = acc @ new \<and> length new = length texts
     \<and> sent w' = sent w @ map (embed_request env) texts
     \<and> console w' = console w \<and> exit_code w' = exit_code w \<and> chat_started w' = chat_started w
     \<and> (\<forall>i<length texts. \<exists>d. net env (length (sent w) + i) = Resolved d
            \<and> new ! i = opt (opt d ''embedding'') ''values'' \<and> truthy (new ! i))"
proof (induction texts arbitrary: acc w)
  case Nil
  then show ?case by simp
next
  case (Cons t ts)
  obtain r w1 where ax: "axios env (embed_request env t) w = (r, w1)"
    by (cases "axios env (embed_request env t) w")
  with Cons.prems obtain d where r: "r = Inr d"
    by (cases r) simp_all
  with Cons.prems ax obtain v where v: "embedding_values d = Inr v"
    by (cases "embedding_values d") simp_all
  with Cons.prems ax r have rec: "embed_loop env ts (acc @ [v]) w1 = (Inr vs, w')"
    by simp
  from ax have w1: "sent w1 = sent w @ [embed_request env t]" "console w1 = console w"
    "exit_code w1 = exit_code w" "chat_started w1 = chat_started w"
    using axios_world[of env "embed_request env t" w] by simp_all
  from ax r have net0: "net env (length (sent w)) = Resolved d"
    using axios_result[of env "embed_request env t" w] by (simp split: outcome.splits)
  from Cons.IH[OF rec] obtain new where new:
    "vs = (acc @ [v]) @ new" "length new = length ts"
    "sent w' = sent w1 @ map (embed_request env) ts"
    "console w' = console w1" "exit_code w' = exit_code w1" "chat_started w' = chat_started w1"
    "\<forall>i<length ts. \<exists>d. net env (length (sent w1) + i) = Resolved d
        \<and> new ! i = opt (opt d ''embedding'') ''values'' \<and> truthy (new ! i)"
    by blast
  have "\<forall>i<length (t # ts). \<exists>d. net env (length (sent w) + i) = Resolved d
        \<and> (v # new) ! i = opt (opt d ''embedding'') ''values'' \<and> truthy ((v # new) ! i)"
  proof (intro allI impI)
    fix i assume "i < length (t # ts)"
    show "\<exists>d. net env (length (sent w) + i) = Resolved d
        \<and> (v # new) ! i = opt (opt d ''embedding'') ''values'' \<and> truthy ((v # new) ! i)"
    proof (cases i)
      case 0
      with net0 v show ?thesis by (auto simp: embedding_values_Inr)
    next
      case (Suc j)
      with \<open>i < length (t # ts)\<close> have "j < length ts" by simp
      with new(7) w1(1) Suc show ?thesis by simp
    qed
  qed
  with new w1 show ?case
    by (intro exI[of _ "v # new"]) simp
qed

lemma embed_loop_Inl:
  assumes "i < length texts"
    and "case net env (length (sent w) + i) of
           Rejected m r \<Rightarrow> True
         | Resolved d \<Rightarrow> \<not> truthy (opt (opt d ''embedding'') ''values'')"
  shows "\<exists>e w'. embed_loop env texts acc w = (Inl e, w')"
proof (cases "embed_loop env texts acc w")
  case (Pair r w')
  show ?thesis
  proof (cases r)
    case (Inl e)
    with Pair show ?thesis by simp
  next
    case (Inr vs)
    with Pair embed_loop_Inr[of env texts acc w vs w'] assms(1)
    obtain new d where "net env (length (sent w) + i) = Resolved d"
      "new ! i = opt (opt d ''embedding'') ''values''" "truthy (new ! i)"
      by blast
    with assms(2) show ?thesis by simp
  qed
qed

lemma embedWithGemini_Inr:
  "embedWithGemini env texts w = (Inr vs, w') \<longleftrightarrow> embed_loop env texts [] w = (Inr vs, w')"
  by (auto simp: embedWithGemini_def split: prod.splits sum.splits)

lemma embedWithGemini_world [simp]:
  "exit_code (snd (embedWithGemini env ts w)) = exit_code w"
  "chat_started (snd (embedWithGemini env ts w)) = chat_started w"
proof -
  have "\<And>acc w. exit_code (snd (embed_loop env ts acc w)) = exit_code w
            \<and> chat_started (snd (embed_loop env ts acc w)) = chat_started w"
  proof (induction ts)
    case Nil
    show ?case by simp
  next
    case (Cons t ts)
    obtain r w1 where ax: "axios env (embed_request env t) w = (r, w1)"
      by (cases "axios env (embed_request env t) w")
    then have "exit_code w1 = exit_code w" "chat_started w1 = chat_started w"
      using axios_world[of env "embed_request env t" w] by simp_all
    with ax Cons.IH show ?case
      by (simp split: sum.splits)
  qed
  then have "exit_code (snd (embed_loop env ts [] w)) = exit_code w"
    and "chat_started (snd (embed_loop env ts [] w)) = chat_started w"
    by simp_all
  then show "exit_code (snd (embedWithGemini env ts w)) = exit_code w"
    and "chat_started (snd (embedWithGemini env ts w)) = chat_started w"
    by (cases "embed_loop env ts [] w"; simp add: embedWithGemini_def split: sum.splits)+
qed

lemma embedWithGemini_sent:
  assumes "embedWithGemini env texts w = (Inr vs, w')"
  shows "length (sent w') = length (sent w) + length texts"
    and "\<forall>i<length texts. \<exists>d. net env (length (sent w) + i) = Resolved d
            \<and> truthy (opt (opt d ''embedding'') ''values'')"
proof -
  from assms have "embed_loop env texts [] w = (Inr vs, w')"
    by (simp add: embedWithGemini_Inr)
  from embed_loop_Inr[OF this] obtain new where
    "sent w' = sent w @ map (embed_request env) texts"
    "\<forall>i<length texts. \<exists>d. net env (length (sent w) + i) = Resolved d
        \<and> new ! i = opt (opt d ''embedding'') ''values'' \<and> truthy (new ! i)"
    by blast
  then show "length (sent w') = length (sent w) + length texts"
    and "\<forall>i<length texts. \<exists>d. net env (length (sent w) + i) = Resolved d
            \<and> truthy (opt (opt d ''embedding'') ''values'')"
    by (simp, metis)
qed

lemma embed_loop_success:
  assumes "\<forall>i<length texts. \<exists>d. net env (length (sent w) + i) = Resolved d
             \<and> truthy (opt (opt d ''embedding'') ''values'')"
  shows "\<exists>vs w'. embed_loop env texts acc w = (Inr vs, w')"
  using assms
proof (induction texts arbitrary: acc w)
  case Nil
  show ?case by simp
next
  case (Cons t ts)
  from Cons.prems obtain d where d: "net env (length (sent w)) = Resolved d"
    "truthy (opt (opt d ''embedding'') ''values'')"
    by force
  obtain w1 where ax: "axios env (embed_request env t) w = (Inr d, w1)"
    using d(1) by (simp add: axios_def Let_def)
  then have w1: "sent w1 = sent w @ [embed_request env t]"
    using axios_world(1)[of env "embed_request env t" w] by simp
  from d(2) have v: "embedding_values d = Inr (opt (opt d ''embedding'') ''values'')"
    by (simp add: embedding_values_Inr)
  have "\<forall>i<length ts. \<exists>d. net env (length (sent w1) + i) = Resolved d
             \<and> truthy (opt (opt d ''embedding'') ''values'')"
  proof (intro allI impI)
    fix i assume "i < length ts"
    then have "Suc i < length (t # ts)" by simp
    with Cons.prems have "\<exists>d. net env (length (sent w) + Suc i) = Resolved d
             \<and> truthy (opt (opt d ''embedding'') ''values'')"
      by blast
    then show "\<exists>d. net env (length (sent w1) + i) = Resolved d
             \<and> truthy (opt (opt d ''embedding'') ''values'')"
      by (simp add: w1)
  qed
  from Cons.IH[OF this] obtain vs w' where
    "embed_loop env ts (acc @ [opt (opt d ''embedding'') ''values'']) w1 = (Inr vs, w')"
    by blast
  with ax v show ?case by simp
qed

text \<open>
  Claim C3 says that the call aborts when an answer lacks the numeric vector field. The source
  tests \<^verbatim>\<open>!res.data.embedding?.values\<close> for truth and nothing else: a \<^verbatim>\<open>values\<close> that is a
  string is returned as the vector, and so is the method \<^verbatim>\<open>values\<close> that an \<^verbatim>\<open>embedding\<close>
  inherits when it is an array without such a field.
\<close>

theorem embedWithGemini_accepts_non_vector_counterexample:
  "\<not> numeric_vector (JStr ''oops'')
   \<and> fst (embedWithGemini
            (example_env (script [Resolved (JObj [(''embedding'',
                                                  JObj [(''values'', JStr ''oops'')])])]))
            [''a''] initial_world)
       = Inr [JStr ''oops'']
   \<and> \<not> numeric_vector (JBuiltin ''values'')
   \<and> fst (embedWithGemini
            (example_env (script [Resolved (JObj [(''embedding'', JArr [JStr ''x''])])]))
            [''a''] initial_world)
       = Inr [JBuiltin ''values'']"
  by (simp add: fixture_simps value_simps embedWithGemini_def axios_def embedding_values_def)

text \<open>
  Claim C3, amended. A call of \<open>embedWithGemini\<close> that succeeds returns one value for each
  input text, in the order of the texts: it has sent one request per text, in order, and the
  \<open>i\<close>-th value is what \<^verbatim>\<open>embedding.values\<close> reads in the answer to the \<open>i\<close>-th request. If
  one of these calls is rejected, or \<^verbatim>\<open>embedding?.values\<close> of its answer tests false (absent,
  \<^verbatim>\<open>null\<close>, \<^verbatim>\<open>false\<close>, \<^verbatim>\<open>0\<close> or the empty string), the whole call ends with an error, and
  an error carries no values. The call succeeds whenever every answer passes that test; that
  the value is a vector of numbers is not checked.
\<close>

theorem embedWithGemini_all_or_nothing:
  "(embedWithGemini env texts w = (Inr vs, w') \<longrightarrow>
      length vs = length texts
      \<and> sent w' = sent w @ map (embed_request env) texts
      \<and> (\<forall>i<length texts. \<exists>d. net env (length (sent w) + i) = Resolved d
             \<and> vs ! i = opt (opt d ''embedding'') ''values''))
   \<and> ((\<exists>i<length texts. case net env (length (sent w) + i) of
                            Rejected m r \<Rightarrow> True
                          | Resolved d \<Rightarrow> \<not> truthy (opt (opt d ''embedding'') ''values''))
        \<longrightarrow> (\<exists>e w'. embedWithGemini env texts w = (Inl e, w')))
   \<and> ((\<forall>i<length texts. \<exists>d. net env (length (sent w) + i) = Resolved d
             \<and> truthy (opt (opt d ''embedding'') ''values''))
        \<longrightarrow> (\<exists>vs w'. embedWithGemini env texts w = (Inr vs, w')))"
proof (intro conjI impI)
  assume "embedWithGemini env texts w = (Inr vs, w')"
  then have "embed_loop env texts [] w = (Inr vs, w')"
    by (simp add: embedWithGemini_Inr)
  from embed_loop_Inr[OF this]
  show "length vs = length texts"
    and "sent w' = sent w @ map (embed_request env) texts"
    and "\<forall>i<length texts. \<exists>d. net env (length (sent w) + i) = Resolved d
             \<and> vs ! i = opt (opt d ''embedding'') ''values''"
    by auto
next
  assume "\<exists>i<length texts. case net env (length (sent w) + i) of
                            Rejected m r \<Rightarrow> True
                          | Resolved d \<Rightarrow> \<not> truthy (opt (opt d ''embedding'') ''values'')"
  then obtain e w1 where "embed_loop env texts [] w = (Inl e, w1)"
    using embed_loop_Inl[of _ texts env w "[]"] by blast
  then show "\<exists>e w'. embedWithGemini env texts w = (Inl e, w')"
    by (simp add: embedWithGemini_def)
next
  assume "\<forall>i<length texts. \<exists>d. net env (length (sent w) + i) = Resolved d
             \<and> truthy (opt (opt d ''embedding'') ''values'')"
  then obtain vs w1 where "embed_loop env texts [] w = (Inr vs, w1)"
    using embed_loop_success[of texts env w "[]"] by blast
  then show "\<exists>vs w'. embedWithGemini env texts w = (Inr vs, w')"
    by (simp add: embedWithGemini_def)
qed

theorem embedWithGemini_all_or_nothing_witness:
  "embedWithGemini
      (example_env (script [vector_response (JArr [JNum 1]), vector_response (JArr [JNum 2])]))
      [''a'', ''b''] initial_world
     = (Inr [JArr [JNum 1], JArr [JNum 2]],
        snd (embedWithGemini
               (example_env (script [vector_response (JArr [JNum 1]),
                                     vector_response (JArr [JNum 2])]))
               [''a'', ''b''] initial_world))
   \<and> (\<exists>e w'. embedWithGemini
                (example_env (script [vector_response (JArr [JNum 1]), Resolved (JObj [])]))
                [''a'', ''b''] initial_world = (Inl e, w'))
   \<and> (\<exists>vs w'. embedWithGemini
                 (example_env (script [vector_response (JStr ''oops'')]))
                 [''a''] initial_world = (Inr vs, w'))"
proof -
  let ?good = "example_env (script [vector_response (JArr [JNum 1]), vector_response (JArr [JNum 2])])"
  let ?bad = "example_env (script [vector_response (JArr [JNum 1]), Resolved (JObj [])])"
  let ?odd = "example_env (script [vector_response (JStr ''oops'')])"
  have run: "fst (embedWithGemini ?good [''a'', ''b''] initial_world)
               = Inr [JArr [JNum 1], JArr [JNum 2]]"
    by (simp add: fixture_simps value_simps embedWithGemini_def axios_def embedding_values_def)
  then have h1: "embedWithGemini ?good [''a'', ''b''] initial_world
     = (Inr [JArr [JNum 1], JArr [JNum 2]],
        snd (embedWithGemini ?good [''a'', ''b''] initial_world))"
    by (simp add: prod_eq_iff)
  have h2: "\<exists>i<length [''a'', ''b''].
              case net ?bad (length (sent initial_world) + i) of
                Rejected m r \<Rightarrow> True
              | Resolved d \<Rightarrow> \<not> truthy (opt (opt d ''embedding'') ''values'')"
    by (intro exI[of _ 1]) (simp add: fixture_simps value_simps)
  have h3: "\<forall>i<length [''a'']. \<exists>d. net ?odd (length (sent initial_world) + i) = Resolved d
             \<and> truthy (opt (opt d ''embedding'') ''values'')"
    by (simp add: fixture_simps value_simps)
  from embedWithGemini_all_or_nothing
         [of ?good "[''a'', ''b'']" initial_world "[JArr [JNum 1], JArr [JNum 2]]"
             "snd (embedWithGemini ?good [''a'', ''b''] initial_world)"] h1
  have "length [JArr [JNum 1], JArr [JNum 2]] = length [''a'', ''b'']" by blast
  moreover from embedWithGemini_all_or_nothing[of ?bad "[''a'', ''b'']" initial_world] h2
  have "\<exists>e w'. embedWithGemini ?bad [''a'', ''b''] initial_world = (Inl e, w')" by blast
  moreover from embedWithGemini_all_or_nothing[of ?odd "[''a'']" initial_world] h3
  have "\<exists>vs w'. embedWithGemini ?odd [''a''] initial_world = (Inr vs, w')" by blast
  ultimately show ?thesis using h1 by blast
qed

section \<open>Properties of the vector store client\<close>

lemma response_status_409:
  "response_status (AxiosError m r) = JNum 409 \<longleftrightarrow> map_option fst r = Some 409"
  by (cases r) (auto simp: response_status_def)

lemma createCollection_result:
  "fst (createCollection env n w) =
     (case net env (length (sent w)) of
        Resolved d \<Rightarrow> Inr ()
      | Rejected m r \<Rightarrow> if map_option fst r = Some 409 then Inr () else Inl (AxiosError m r))"
  by (simp add: createCollection_def axios_def Let_def response_status_409 split: outcome.splits)

lemma createCollection_world [simp]:
  "length (sent (snd (createCollection env n w))) = Suc (length (sent w))"
  "exit_code (snd (createCollection env n w)) = exit_code w"
  "chat_started (snd (createCollection env n w)) = chat_started w"
  by (simp_all add: createCollection_def axios_def Let_def split: outcome.splits)

text \<open>
  Claim C9. \<open>createCollection\<close> returns without error when the provider answers with
  status 409 (already exists), as it does when the provider accepts the request; any other
  rejection is thrown again as it is. So a second creation, answered by 409 or accepted,
  does not raise.
\<close>

theorem createCollection_idempotent:
  "(net env (length (sent w)) = Rejected m (Some (409, d)) \<longrightarrow>
      fst (createCollection env n w) = Inr ())
   \<and> (net env (length (sent w)) = Resolved d0 \<longrightarrow> fst (createCollection env n w) = Inr ())
   \<and> (net env (length (sent w)) = Rejected m1 r \<and> map_option fst r \<noteq> Some 409 \<longrightarrow>
        fst (createCollection env n w) = Inl (AxiosError m1 r))
   \<and> (net env (Suc (length (sent w))) = Rejected m2 (Some (409, d2))
        \<or> net env (Suc (length (sent w))) = Resolved d2 \<longrightarrow>
        fst (createCollection env n (snd (createCollection env n w))) = Inr ())"
  by (auto simp: createCollection_result)

theorem createCollection_idempotent_witness:
  "fst (createCollection (example_env (script [Resolved JNull, Rejected ''Conflict'' (Some (409, JNull))]))
          768 initial_world) = Inr ()
   \<and> fst (createCollection (example_env (script [Resolved JNull, Rejected ''Conflict'' (Some (409, JNull))]))
          768
          (snd (createCollection
                  (example_env (script [Resolved JNull, Rejected ''Conflict'' (Some (409, JNull))]))
                  768 initial_world))) = Inr ()
   \<and> fst (createCollection (example_env (script [Rejected ''Conflict'' (Some (409, JNull))]))
          768 initial_world) = Inr ()
   \<and> fst (createCollection (example_env (script [Rejected ''Unauthorized'' (Some (401, JNull))]))
          768 initial_world) = Inl (AxiosError ''Unauthorized'' (Some (401, JNull)))"
  using createCollection_idempotent
          [of "example_env (script [Resolved JNull, Rejected ''Conflict'' (Some (409, JNull))])"
              initial_world "''Conflict''" JNull 768 JNull "''Conflict''" None "''Conflict''" JNull]
        createCollection_idempotent
          [of "example_env (script [Rejected ''Conflict'' (Some (409, JNull))])"
              initial_world "''Conflict''" JNull 768 JNull "''Conflict''" None "''Conflict''" JNull]
        createCollection_idempotent
          [of "example_env (script [Rejected ''Unauthorized'' (Some (401, JNull))])"
              initial_world "''Conflict''" JNull 768 JNull "''Unauthorized''" "Some (401, JNull)"
              "''Conflict''" JNull]
  by (simp add: fixture_simps)

lemma upsertToQdrant_result:
  "fst (upsertToQdrant env ids texts embeddings w) =
     (case net env (length (sent w)) of
        Resolved d \<Rightarrow> Inr () | Rejected m r \<Rightarrow> Inl (AxiosError m r))"
  by (simp add: upsertToQdrant_def axios_def Let_def split: outcome.splits)

lemma upsertToQdrant_world [simp]:
  "exit_code (snd (upsertToQdrant env ids texts embeddings w)) = exit_code w"
  "chat_started (snd (upsertToQdrant env ids texts embeddings w)) = chat_started w"
  by (simp_all add: upsertToQdrant_def axios_def Let_def split: outcome.splits)

lemma searchQdrant_result:
  "fst (searchQdrant env qv k w) =
     (case net env (length (sent w)) of
        Rejected m r \<Rightarrow> Inl (AxiosError m r)
      | Resolved d \<Rightarrow>
          if \<not> truthy (opt d ''result'') then Inl (Error ''Invalid search response from Qdrant'')
          else context_of env (opt d ''result''))"
  by (simp add: searchQdrant_def axios_def Let_def split: outcome.splits)

lemma searchQdrant_world [simp]:
  "exit_code (snd (searchQdrant env qv k w)) = exit_code w"
  "chat_started (snd (searchQdrant env qv k w)) = chat_started w"
  by (simp_all add: searchQdrant_def axios_def Let_def split: outcome.splits)

lemma payload_text_eq:
  "payload_text item =
     (if nullish item then Inl (cannot_read item ''payload'')
      else Inr (opt (opt item ''payload'') ''text''))"
  by (simp add: payload_text_def get_def opt_def)

lemma filter_items_TypeError:
  "filter_items items = Inl e \<Longrightarrow> \<exists>m. e = TypeError m"
  by (induction items arbitrary: e)
     (auto simp: payload_text_eq cannot_read_def split: if_splits sum.splits)

lemma map_texts_TypeError:
  "map_texts items = Inl e \<Longrightarrow> \<exists>m. e = TypeError m"
  by (induction items arbitrary: e)
     (auto simp: get_def cannot_read_def split: if_splits sum.splits)

lemma to_string_TypeError:
  "to_string ns v = Inl e \<Longrightarrow> \<exists>m. e = TypeError m"
  "to_strings ns vs = Inl e \<Longrightarrow> \<exists>m. e = TypeError m"
  by (induction ns v and ns vs arbitrary: e and e rule: to_string_to_strings.induct)
     (auto split: sum.splits if_splits)

lemma array_join_TypeError:
  "array_join ns sep vs = Inl e \<Longrightarrow> \<exists>m. e = TypeError m"
  by (auto simp: array_join_def split: sum.splits dest: to_string_TypeError(2))

lemma context_of_TypeError:
  "context_of env r = Inl e \<Longrightarrow> \<exists>m. e = TypeError m"
  by (auto simp: context_of_def split: jsval.splits sum.splits
           dest: filter_items_TypeError map_texts_TypeError array_join_TypeError)

lemma filter_items_ok:
  "\<forall>it\<in>set items. \<not> nullish it \<Longrightarrow>
   filter_items items = Inr (filter (\<lambda>it. truthy (opt (opt it ''payload'') ''text'')) items)"
  by (induction items) (simp_all add: payload_text_eq)

lemma truthy_text_access:
  assumes "truthy (opt (opt it ''payload'') ''text'')"
  shows "get it ''payload'' = Inr (opt it ''payload'')"
    and "get (opt it ''payload'') ''text'' = Inr (opt (opt it ''payload'') ''text'')"
  using assms by (auto simp: get_def opt_def split: if_splits)

lemma map_texts_ok:
  "\<forall>it\<in>set kept. truthy (opt (opt it ''payload'') ''text'') \<Longrightarrow>
   map_texts kept = Inr (map (\<lambda>it. opt (opt it ''payload'') ''text'') kept)"
  by (induction kept) (simp_all add: truthy_text_access)

lemma context_of_items:
  assumes "\<forall>it\<in>set items. \<not> nullish it"
  shows "context_of env (JArr items) =
           array_join (number_to_string env) separator
             (map (\<lambda>it. opt (opt it ''payload'') ''text'')
                (filter (\<lambda>it. truthy (opt (opt it ''payload'') ''text'')) items))"
proof -
  let ?keep = "filter (\<lambda>it. truthy (opt (opt it ''payload'') ''text'')) items"
  have "filter_items items = Inr ?keep" using assms by (rule filter_items_ok)
  moreover have "map_texts ?keep = Inr (map (\<lambda>it. opt (opt it ''payload'') ''text'') ?keep)"
    by (rule map_texts_ok) simp
  ultimately show ?thesis by (simp add: context_of_def)
qed

lemma to_strings_strs:
  "to_strings ns (map JStr ts) = Inr ts"
  by (induction ts) simp_all

lemma separator_literal:
  "separator = [CHR 0x0A, CHR 0x0A, CHR ''-'', CHR ''-'', CHR ''-'', CHR 0x0A, CHR 0x0A]"
  by (simp add: separator_def nl_def)

lemma context_of_not_array:
  assumes "\<forall>items. r \<noteq> JArr items"
  shows "context_of env r = Inl (TypeError ''res.data.result.filter is not a function'')"
  using assms by (cases r) (simp_all add: context_of_def)

lemma filter_items_drop:
  assumes "\<not> nullish it" and "\<not> truthy (opt (opt it ''payload'') ''text'')"
  shows "filter_items (xs @ it # ys) = filter_items (xs @ ys)"
  using assms by (induction xs) (simp_all add: payload_text_eq split: sum.splits)

lemma context_of_drop:
  assumes "\<not> nullish it" and "\<not> truthy (opt (opt it ''payload'') ''text'')"
  shows "context_of env (JArr (xs @ it # ys)) = context_of env (JArr (xs @ ys))"
  by (simp add: context_of_def filter_items_drop[OF assms])

text \<open>
  Claim C5 says that the protocol error is raised exactly when the answer lacks the expected
  result field. The source tests \<^verbatim>\<open>!res.data?.result\<close>: an answer whose result field is
  there with the value \<^verbatim>\<open>0\<close> raises the protocol error; an answer whose result is a string,
  not the expected list, raises a \<^verbatim>\<open>TypeError\<close> and not the protocol error; and an answer
  whose result is a list holding \<^verbatim>\<open>null\<close> raises a \<^verbatim>\<open>TypeError\<close> with the field in place.
\<close>

theorem searchQdrant_contract_counterexample:
  "fst (searchQdrant (example_env (script [Resolved (JObj [(''result'', JNum 0)])]))
          (JArr [JNum 1]) 3 initial_world)
     = Inl (Error ''Invalid search response from Qdrant'')
   \<and> fst (searchQdrant (example_env (script [Resolved (JObj [(''result'', JStr ''abc'')])]))
            (JArr [JNum 1]) 3 initial_world)
     = Inl (TypeError ''res.data.result.filter is not a function'')
   \<and> fst (searchQdrant (example_env (script [Resolved (JObj [(''result'', JArr [JNull])])]))
            (JArr [JNum 1]) 3 initial_world)
     = Inl (TypeError (''Cannot read properties of null (reading '' @ [CHR 0x27] @ ''payload''
                       @ [CHR 0x27] @ '')''))"
  by (simp add: searchQdrant_result fixture_simps value_simps context_of_def payload_text_def
                cannot_read_def)

text \<open>
  Claim C5, amended. \<open>searchQdrant\<close> raises its protocol error,
  \<^verbatim>\<open>Invalid search response from Qdrant\<close>, exactly when the provider answered and the result
  of the answer tests false (absent, \<^verbatim>\<open>null\<close>, \<^verbatim>\<open>false\<close>, \<^verbatim>\<open>0\<close> or the empty string). A result
  that tests true and is not a list raises a \<^verbatim>\<open>TypeError\<close>. An empty result list is no error
  and gives the empty context. A non-empty result list whose items each carry a payload text
  gives these texts, in the order of the list, joined by the separator: a line feed twice,
  three hyphens, a line feed twice.
\<close>

theorem searchQdrant_contract:
  "(fst (searchQdrant env qv k w) = Inl (Error ''Invalid search response from Qdrant'')
      \<longleftrightarrow> (\<exists>d. net env (length (sent w)) = Resolved d \<and> \<not> truthy (opt d ''result'')))
   \<and> (net env (length (sent w)) = Resolved d \<and> truthy (opt d ''result'')
        \<and> (\<forall>items. opt d ''result'' \<noteq> JArr items) \<longrightarrow>
        fst (searchQdrant env qv k w)
          = Inl (TypeError ''res.data.result.filter is not a function''))
   \<and> (net env (length (sent w)) = Resolved d \<and> opt d ''result'' = JArr [] \<longrightarrow>
        fst (searchQdrant env qv k w) = Inr [])
   \<and> (net env (length (sent w)) = Resolved d \<and> opt d ''result'' = JArr items \<and> items \<noteq> []
        \<and> (\<forall>it\<in>set items. truthy (opt (opt it ''payload'') ''text'')) \<longrightarrow>
        fst (searchQdrant env qv k w) =
          array_join (number_to_string env)
            [CHR 0x0A, CHR 0x0A, CHR ''-'', CHR ''-'', CHR ''-'', CHR 0x0A, CHR 0x0A]
            (map (\<lambda>it. opt (opt it ''payload'') ''text'') items))
   \<and> (net env (length (sent w)) = Resolved d \<and> opt d ''result'' = JArr items \<and> items \<noteq> []
        \<and> length ts = length items
        \<and> (\<forall>i<length items. opt (opt (items ! i) ''payload'') ''text'' = JStr (ts ! i)
               \<and> ts ! i \<noteq> []) \<longrightarrow>
        fst (searchQdrant env qv k w) =
          Inr (join [CHR 0x0A, CHR 0x0A, CHR ''-'', CHR ''-'', CHR ''-'', CHR 0x0A, CHR 0x0A] ts))"
proof (intro conjI impI)
  show "fst (searchQdrant env qv k w) = Inl (Error ''Invalid search response from Qdrant'')
      \<longleftrightarrow> (\<exists>d. net env (length (sent w)) = Resolved d \<and> \<not> truthy (opt d ''result''))"
    by (auto simp: searchQdrant_result split: outcome.splits dest: context_of_TypeError)
next
  assume "net env (length (sent w)) = Resolved d \<and> truthy (opt d ''result'')
        \<and> (\<forall>items. opt d ''result'' \<noteq> JArr items)"
  then show "fst (searchQdrant env qv k w)
          = Inl (TypeError ''res.data.result.filter is not a function'')"
    by (simp add: searchQdrant_result context_of_not_array)
next
  assume "net env (length (sent w)) = Resolved d \<and> opt d ''result'' = JArr []"
  then show "fst (searchQdrant env qv k w) = Inr []"
    by (simp add: searchQdrant_result context_of_def array_join_def)
next
  assume a: "net env (length (sent w)) = Resolved d \<and> opt d ''result'' = JArr items \<and> items \<noteq> []
        \<and> (\<forall>it\<in>set items. truthy (opt (opt it ''payload'') ''text''))"
  then have "\<forall>it\<in>set items. \<not> nullish it"
    by (auto simp: opt_def nullish_def)
  then have "context_of env (JArr items) =
           array_join (number_to_string env) separator
             (map (\<lambda>it. opt (opt it ''payload'') ''text'')
                (filter (\<lambda>it. truthy (opt (opt it ''payload'') ''text'')) items))"
    by (rule context_of_items)
  moreover from a have "filter (\<lambda>it. truthy (opt (opt it ''payload'') ''text'')) items = items"
    by simp
  ultimately show "fst (searchQdrant env qv k w) =
          array_join (number_to_string env)
            [CHR 0x0A, CHR 0x0A, CHR ''-'', CHR ''-'', CHR ''-'', CHR 0x0A, CHR 0x0A]
            (map (\<lambda>it. opt (opt it ''payload'') ''text'') items)"
    using a by (simp add: searchQdrant_result separator_literal)
next
  assume a: "net env (length (sent w)) = Resolved d \<and> opt d ''result'' = JArr items \<and> items \<noteq> []
        \<and> length ts = length items
        \<and> (\<forall>i<length items. opt (opt (items ! i) ''payload'') ''text'' = JStr (ts ! i)
               \<and> ts ! i \<noteq> [])"
  then have texts: "map (\<lambda>it. opt (opt it ''payload'') ''text'') items = map JStr ts"
    by (intro nth_equalityI) simp_all
  have keep: "\<forall>it\<in>set items. truthy (opt (opt it ''payload'') ''text'')"
  proof
    fix it assume "it \<in> set items"
    then obtain i where "i < length items" "it = items ! i"
      by (auto simp: in_set_conv_nth)
    with a show "truthy (opt (opt it ''payload'') ''text'')" by simp
  qed
  then have "\<forall>it\<in>set items. \<not> nullish it"
    by (auto simp: opt_def nullish_def)
  then have "context_of env (JArr items) =
           array_join (number_to_string env) separator
             (map (\<lambda>it. opt (opt it ''payload'') ''text'')
                (filter (\<lambda>it. truthy (opt (opt it ''payload'') ''text'')) items))"
    by (rule context_of_items)
  moreover from keep have "filter (\<lambda>it. truthy (opt (opt it ''payload'') ''text'')) items = items"
    by simp
  ultimately have "context_of env (JArr items) = Inr (join separator ts)"
    using texts by (simp add: array_join_def to_strings_strs)
  with a show "fst (searchQdrant env qv k w) =
          Inr (join [CHR 0x0A, CHR 0x0A, CHR ''-'', CHR ''-'', CHR ''-'', CHR 0x0A, CHR 0x0A] ts)"
    by (simp add: searchQdrant_result separator_literal)
qed

theorem searchQdrant_contract_witness:
  "fst (searchQdrant (example_env (script [Resolved (JObj [])])) (JArr [JNum 1]) 3 initial_world)
     = Inl (Error ''Invalid search response from Qdrant'')
   \<and> fst (searchQdrant (example_env (script [Resolved (JObj [(''result'', JBool True)])]))
            (JArr [JNum 1]) 3 initial_world)
     = Inl (TypeError ''res.data.result.filter is not a function'')
   \<and> fst (searchQdrant (example_env (script [search_response []])) (JArr [JNum 1]) 3 initial_world)
     = Inr []
   \<and> fst (searchQdrant (example_env (script [search_response [hit ''ABCD'', hit ''IJ'']]))
            (JArr [JNum 1]) 3 initial_world)
     = Inr [CHR ''A'', CHR ''B'', CHR ''C'', CHR ''D'',
            CHR 0x0A, CHR 0x0A, CHR ''-'', CHR ''-'', CHR ''-'', CHR 0x0A, CHR 0x0A,
            CHR ''I'', CHR ''J'']"
proof -
  let ?e1 = "example_env (script [Resolved (JObj [])])"
  let ?e2 = "example_env (script [search_response []])"
  let ?e3 = "example_env (script [search_response [hit ''ABCD'', hit ''IJ'']])"
  let ?e4 = "example_env (script [Resolved (JObj [(''result'', JBool True)])])"
  let ?d3 = "JObj [(''result'', JArr [hit ''ABCD'', hit ''IJ''])]"
  let ?d4 = "JObj [(''result'', JBool True)]"
  have h1: "\<exists>d. net ?e1 (length (sent initial_world)) = Resolved d \<and> \<not> truthy (opt d ''result'')"
    by (simp add: fixture_simps value_simps)
  have h2: "net ?e2 (length (sent initial_world)) = Resolved (JObj [(''result'', JArr [])])
            \<and> opt (JObj [(''result'', JArr [])]) ''result'' = JArr []"
    by (simp add: fixture_simps value_simps)
  have h3: "net ?e3 (length (sent initial_world)) = Resolved ?d3
            \<and> opt ?d3 ''result'' = JArr [hit ''ABCD'', hit ''IJ''] \<and> [hit ''ABCD'', hit ''IJ''] \<noteq> []
            \<and> length [''ABCD'', ''IJ''] = length [hit ''ABCD'', hit ''IJ'']
            \<and> (\<forall>i<length [hit ''ABCD'', hit ''IJ''].
                  opt (opt ([hit ''ABCD'', hit ''IJ''] ! i) ''payload'') ''text''
                    = JStr ([''ABCD'', ''IJ''] ! i)
                  \<and> [''ABCD'', ''IJ''] ! i \<noteq> [])"
    by (simp add: fixture_simps value_simps All_less_Suc)
  have h4: "net ?e4 (length (sent initial_world)) = Resolved ?d4 \<and> truthy (opt ?d4 ''result'')
            \<and> (\<forall>items. opt ?d4 ''result'' \<noteq> JArr items)"
    by (simp add: fixture_simps value_simps)
  have c1: "fst (searchQdrant ?e1 (JArr [JNum 1]) 3 initial_world)
              = Inl (Error ''Invalid search response from Qdrant'')"
    using searchQdrant_contract[of ?e1 "JArr [JNum 1]" 3 initial_world] h1 by blast
  have c2: "fst (searchQdrant ?e2 (JArr [JNum 1]) 3 initial_world) = Inr []"
    using searchQdrant_contract[of ?e2 "JArr [JNum 1]" 3 initial_world
                                   "JObj [(''result'', JArr [])]"] h2 by blast
  have c4: "fst (searchQdrant ?e4 (JArr [JNum 1]) 3 initial_world)
              = Inl (TypeError ''res.data.result.filter is not a function'')"
    using searchQdrant_contract[of ?e4 "JArr [JNum 1]" 3 initial_world ?d4] h4 by blast
  have "fst (searchQdrant ?e3 (JArr [JNum 1]) 3 initial_world)
          = Inr (join [CHR 0x0A, CHR 0x0A, CHR ''-'', CHR ''-'', CHR ''-'', CHR 0x0A, CHR 0x0A]
                   [''ABCD'', ''IJ''])"
    using searchQdrant_contract[of ?e3 "JArr [JNum 1]" 3 initial_world ?d3
                                   "[hit ''ABCD'', hit ''IJ'']" "[''ABCD'', ''IJ'']"] h3 by blast
  then have c3: "fst (searchQdrant ?e3 (JArr [JNum 1]) 3 initial_world)
     = Inr [CHR ''A'', CHR ''B'', CHR ''C'', CHR ''D'',
            CHR 0x0A, CHR 0x0A, CHR ''-'', CHR ''-'', CHR ''-'', CHR 0x0A, CHR 0x0A,
            CHR ''I'', CHR ''J'']"
    by simp
  from c1 c2 c3 c4 show ?thesis by blast
qed

text \<open>
  Claim C10. A result item whose payload has no text (no payload, no text field, or a text
  that tests false) is dropped from the context and raises nothing: the context is the same as
  without the item; the context of a well-formed answer is made of the texts that are there,
  each converted to a string as \<^verbatim>\<open>join\<close> does, and it is empty when no item has one. The items are objects: reading the payload of a
  \<^verbatim>\<open>null\<close> item is a \<^verbatim>\<open>TypeError\<close>.
\<close>

theorem searchQdrant_drops_textless_items:
  "(\<not> nullish it \<and> \<not> truthy (opt (opt it ''payload'') ''text'') \<longrightarrow>
      context_of env (JArr (xs @ it # ys)) = context_of env (JArr (xs @ ys)))
   \<and> (net env (length (sent w)) = Resolved d \<and> opt d ''result'' = JArr items
        \<and> (\<forall>it\<in>set items. \<not> nullish it) \<longrightarrow>
       fst (searchQdrant env qv k w) =
         (case to_strings (number_to_string env)
                 (map (\<lambda>it. opt (opt it ''payload'') ''text'')
                    (filter (\<lambda>it. truthy (opt (opt it ''payload'') ''text'')) items)) of
            Inl e \<Rightarrow> Inl e
          | Inr ss \<Rightarrow> Inr (join separator ss)))
   \<and> (net env (length (sent w)) = Resolved d \<and> opt d ''result'' = JArr items
        \<and> (\<forall>it\<in>set items. \<not> nullish it \<and> \<not> truthy (opt (opt it ''payload'') ''text'')) \<longrightarrow>
       fst (searchQdrant env qv k w) = Inr [])"
proof (intro conjI impI)
  assume "\<not> nullish it \<and> \<not> truthy (opt (opt it ''payload'') ''text'')"
  then show "context_of env (JArr (xs @ it # ys)) = context_of env (JArr (xs @ ys))"
    by (simp add: context_of_drop)
next
  assume "net env (length (sent w)) = Resolved d \<and> opt d ''result'' = JArr items
        \<and> (\<forall>it\<in>set items. \<not> nullish it)"
  then show "fst (searchQdrant env qv k w) =
         (case to_strings (number_to_string env)
                 (map (\<lambda>it. opt (opt it ''payload'') ''text'')
                    (filter (\<lambda>it. truthy (opt (opt it ''payload'') ''text'')) items)) of
            Inl e \<Rightarrow> Inl e
          | Inr ss \<Rightarrow> Inr (join separator ss))"
    by (simp add: searchQdrant_result context_of_items array_join_def)
next
  assume a: "net env (length (sent w)) = Resolved d \<and> opt d ''result'' = JArr items
        \<and> (\<forall>it\<in>set items. \<not> nullish it \<and> \<not> truthy (opt (opt it ''payload'') ''text''))"
  then have "filter (\<lambda>it. truthy (opt (opt it ''payload'') ''text'')) items = []"
    by (simp add: filter_empty_conv)
  with a show "fst (searchQdrant env qv k w) = Inr []"
    by (simp add: searchQdrant_result context_of_items array_join_def)
qed

theorem searchQdrant_drops_textless_items_witness:
  "context_of (example_env (script []))
      (JArr ([hit ''ABCD''] @ JObj [(''id'', JNum 2)] # [hit ''IJ'']))
     = context_of (example_env (script [])) (JArr ([hit ''ABCD''] @ [hit ''IJ'']))
   \<and> fst (searchQdrant
            (example_env (script [search_response [hit ''ABCD'', JObj [(''id'', JNum 2)], hit ''IJ'']]))
            (JArr [JNum 1]) 3 initial_world)
     = Inr (''ABCD'' @ separator @ ''IJ'')
   \<and> fst (searchQdrant
            (example_env (script [search_response
                                    [JObj [(''id'', JNum 2)], JObj [(''payload'', JObj [])]]]))
            (JArr [JNum 1]) 3 initial_world)
     = Inr []"
proof -
  let ?bare = "JObj [(''id'', JNum 2)]"
  let ?items = "[hit ''ABCD'', ?bare, hit ''IJ'']"
  let ?none = "[?bare, JObj [(''payload'', JObj [])]]"
  let ?e1 = "example_env (script [search_response ?items])"
  let ?e2 = "example_env (script [search_response ?none])"
  have h0: "\<not> nullish ?bare \<and> \<not> truthy (opt (opt ?bare ''payload'') ''text'')"
    by (simp add: value_simps)
  have h1: "net ?e1 (length (sent initial_world)) = Resolved (JObj [(''result'', JArr ?items)])
            \<and> opt (JObj [(''result'', JArr ?items)]) ''result'' = JArr ?items
            \<and> (\<forall>it\<in>set ?items. \<not> nullish it)"
    by (simp add: fixture_simps value_simps)
  have h2: "net ?e2 (length (sent initial_world)) = Resolved (JObj [(''result'', JArr ?none)])
            \<and> opt (JObj [(''result'', JArr ?none)]) ''result'' = JArr ?none
            \<and> (\<forall>it\<in>set ?none. \<not> nullish it \<and> \<not> truthy (opt (opt it ''payload'') ''text''))"
    by (simp add: fixture_simps value_simps)
  have c0: "context_of (example_env (script [])) (JArr ([hit ''ABCD''] @ ?bare # [hit ''IJ'']))
     = context_of (example_env (script [])) (JArr ([hit ''ABCD''] @ [hit ''IJ'']))"
    using searchQdrant_drops_textless_items
            [of ?bare "example_env (script [])" "[hit ''ABCD'']" "[hit ''IJ'']"] h0
    by blast
  have "fst (searchQdrant ?e1 (JArr [JNum 1]) 3 initial_world)
          = (case to_strings (number_to_string ?e1)
                 (map (\<lambda>it. opt (opt it ''payload'') ''text'')
                    (filter (\<lambda>it. truthy (opt (opt it ''payload'') ''text'')) ?items)) of
               Inl e \<Rightarrow> Inl e
             | Inr ss \<Rightarrow> Inr (join separator ss))"
    using searchQdrant_drops_textless_items
            [of ?bare ?e1 "[]" "[]" initial_world "JObj [(''result'', JArr ?items)]" ?items
                "JArr [JNum 1]" 3] h1
    by blast
  then have c1: "fst (searchQdrant ?e1 (JArr [JNum 1]) 3 initial_world)
                   = Inr (''ABCD'' @ separator @ ''IJ'')"
    by (simp add: hit_def value_simps)
  have c2: "fst (searchQdrant ?e2 (JArr [JNum 1]) 3 initial_world) = Inr []"
    using searchQdrant_drops_textless_items
            [of ?bare ?e2 "[]" "[]" initial_world "JObj [(''result'', JArr ?none)]" ?none
                "JArr [JNum 1]" 3] h2
    by blast
  from c0 c1 c2 show ?thesis by blast
qed

section \<open>Properties of the answer generator and of the interactive loop\<close>

lemma askGemini_try_world [simp]:
  "exit_code (snd (askGemini_try env q c w)) = exit_code w"
  "chat_started (snd (askGemini_try env q c w)) = chat_started w"
  by (simp_all add: askGemini_try_def axios_def Let_def split: outcome.splits)

lemma askGemini_world [simp]:
  "exit_code (snd (askGemini env q c w)) = exit_code w"
  "chat_started (snd (askGemini env q c w)) = chat_started w"
proof -
  obtain r w1 where t: "askGemini_try env q c w = (r, w1)"
    by (cases "askGemini_try env q c w")
  then have "exit_code w1 = exit_code w" "chat_started w1 = chat_started w"
    using askGemini_try_world[of env q c w] by simp_all
  with t show "exit_code (snd (askGemini env q c w)) = exit_code w"
    and "chat_started (snd (askGemini env q c w)) = chat_started w"
    by (simp_all add: askGemini_def split: sum.splits)
qed

lemma askGemini_try_fails:
  assumes "(\<exists>m r. net env (length (sent w)) = Rejected m r)
           \<or> (\<exists>d. net env (length (sent w)) = Resolved d \<and> \<not> truthy (answer_path d))"
  shows "\<exists>e. fst (askGemini_try env q c w) = Inl e"
  using assms by (auto simp: askGemini_try_def axios_def Let_def)

lemma askGemini_total:
  "\<exists>a. fst (askGemini env q c w) = Inr a"
  by (cases "askGemini_try env q c w") (simp add: askGemini_def split: sum.splits)

lemma askGemini_fallback:
  "fst (askGemini_try env q c w) = Inl e \<Longrightarrow> fst (askGemini env q c w) = Inr (JStr fallback_answer)"
  by (cases "askGemini_try env q c w") (simp add: askGemini_def)

lemma on_close_world [simp]:
  "exit_code (on_close w) = Some 0"
  "sent (on_close w) = sent w"
  by (simp_all add: on_close_def process_exit_def)

lemma and_then_Inl [simp]: "and_then (Inl e, w) f = (Inl e, w)"
  by (simp add: and_then_def)

lemma and_then_Inr [simp]: "and_then (Inr a, w) f = f a w"
  by (simp add: and_then_def)

lemma turn_world [simp]:
  "exit_code (snd (turn env q w)) = exit_code w"
proof -
  let ?w0 = "emit (Stdout_write ''Thinking...'') w"
  obtain r1 w1 where e: "embedWithGemini env [q] ?w0 = (r1, w1)"
    by (cases "embedWithGemini env [q] ?w0")
  then have x1: "exit_code w1 = exit_code w"
    using embedWithGemini_world(1)[of env "[q]" ?w0] by simp
  show ?thesis
  proof (cases r1)
    case (Inl err)
    with e x1 show ?thesis by (simp add: turn_def)
  next
    case (Inr qe)
    obtain r2 w2 where s: "searchQdrant env (element qe 0) 3 w1 = (r2, w2)"
      by (cases "searchQdrant env (element qe 0) 3 w1")
    then have x2: "exit_code w2 = exit_code w1"
      using searchQdrant_world(1)[of env "element qe 0" 3 w1] by simp
    show ?thesis
    proof (cases r2)
      case (Inl err)
      with e Inr s x1 x2 show ?thesis by (simp add: turn_def)
    next
      case ctx: (Inr ctx)
      obtain r3 w3 where a: "askGemini env q ctx w2 = (r3, w3)"
        by (cases "askGemini env q ctx w2")
      then have x3: "exit_code w3 = exit_code w2"
        using askGemini_world(1)[of env q ctx w2] by simp
      with e Inr s ctx a x1 x2 show ?thesis
        by (cases r3) (simp_all add: turn_def)
    qed
  qed
qed

lemma on_line_keeps_running:
  assumes "toLowerCase (trim line) \<noteq> ''exit''"
  shows "exit_code (on_line env line w) = exit_code w"
proof (cases "trim line = []")
  case True
  with assms show ?thesis by (simp add: on_line_def)
next
  case False
  obtain r w' where t: "turn env (trim line) w = (r, w')"
    by (cases "turn env (trim line) w")
  then have "exit_code w' = exit_code w"
    using turn_world[of env "trim line" w] by simp
  with assms False t show ?thesis
    by (cases r) (simp_all add: on_line_def)
qed

lemma chat_continues:
  assumes "toLowerCase (trim line) \<noteq> ''exit''" and "exit_code w = None"
  shows "chat env (line # rest) w = chat env rest (on_line env line w)"
  using on_line_keeps_running[OF assms(1), of env w] assms(2) by (simp add: Let_def)

lemma trim_whitespace:
  assumes "\<forall>c\<in>set line. is_space c"
  shows "trim line = []"
proof -
  from assms have "dropWhile is_space line = []" by (induction line) simp_all
  then show ?thesis unfolding trim_def by (simp only: rev.simps dropWhile.simps)
qed

lemma to_lower_char_eq:
  assumes "k < 256" and "\<not> ((65 \<le> k \<and> k \<le> 90) \<or> (192 \<le> k \<and> k \<le> 222 \<and> k \<noteq> 215))"
    and "65 \<le> k - 32" and "k - 32 \<le> 90"
  shows "to_lower_char c = char_of (k::nat) \<longleftrightarrow> c = char_of k \<or> c = char_of (k - 32)"
proof -
  define n where "n = (of_char c :: nat)"
  have n: "n < 256" and c: "c = char_of n"
    by (simp_all add: n_def)
  have eq: "\<And>a b. a < 256 \<Longrightarrow> b < 256 \<Longrightarrow> (char_of (a::nat) = char_of (b::nat)) = (a = b)"
    by simp
  show ?thesis
  proof (cases "(65 \<le> n \<and> n \<le> 90) \<or> (192 \<le> n \<and> n \<le> 222 \<and> n \<noteq> 215)")
    case True
    then have "to_lower_char c = char_of (n + 32)"
      by (simp add: to_lower_char_def n_def Let_def)
    moreover from True have "n + 32 < 256" by auto
    ultimately have "to_lower_char c = char_of k \<longleftrightarrow> n + 32 = k"
      using assms(1) eq by simp
    moreover have "c = char_of k \<longleftrightarrow> n = k" "c = char_of (k - 32) \<longleftrightarrow> n = k - 32"
      using c n assms(1) eq by simp_all
    ultimately show ?thesis using True assms by auto
  next
    case False
    then have "to_lower_char c = c"
      unfolding to_lower_char_def n_def Let_def by (simp only: if_False)
    moreover have "c = char_of k \<longleftrightarrow> n = k" "c = char_of (k - 32) \<longleftrightarrow> n = k - 32"
      using c n assms(1) eq by simp_all
    ultimately show ?thesis using False assms by auto
  qed
qed

lemma to_lower_char_exit:
  "to_lower_char c = CHR ''e'' \<longleftrightarrow> c = CHR ''e'' \<or> c = CHR ''E''"
  "to_lower_char c = CHR ''x'' \<longleftrightarrow> c = CHR ''x'' \<or> c = CHR ''X''"
  "to_lower_char c = CHR ''i'' \<longleftrightarrow> c = CHR ''i'' \<or> c = CHR ''I''"
  "to_lower_char c = CHR ''t'' \<longleftrightarrow> c = CHR ''t'' \<or> c = CHR ''T''"
proof -
  have *: "CHR ''e'' = char_of (101::nat)" "CHR ''E'' = char_of (101 - 32 ::nat)"
    "CHR ''x'' = char_of (120::nat)" "CHR ''X'' = char_of (120 - 32 ::nat)"
    "CHR ''i'' = char_of (105::nat)" "CHR ''I'' = char_of (105 - 32 ::nat)"
    "CHR ''t'' = char_of (116::nat)" "CHR ''T'' = char_of (116 - 32 ::nat)"
    by (simp_all add: char_of_eq_iff eq_commute[of _ "char_of _"])
  show "to_lower_char c = CHR ''e'' \<longleftrightarrow> c = CHR ''e'' \<or> c = CHR ''E''"
    unfolding *(1,2) by (rule to_lower_char_eq) simp_all
  show "to_lower_char c = CHR ''x'' \<longleftrightarrow> c = CHR ''x'' \<or> c = CHR ''X''"
    unfolding *(3,4) by (rule to_lower_char_eq) simp_all
  show "to_lower_char c = CHR ''i'' \<longleftrightarrow> c = CHR ''i'' \<or> c = CHR ''I''"
    unfolding *(5,6) by (rule to_lower_char_eq) simp_all
  show "to_lower_char c = CHR ''t'' \<longleftrightarrow> c = CHR ''t'' \<or> c = CHR ''T''"
    unfolding *(7,8) by (rule to_lower_char_eq) simp_all
qed

lemma toLowerCase_exit:
  "toLowerCase q = ''exit'' \<longleftrightarrow>
     (\<exists>a b c d. q = [a, b, c, d]
        \<and> (a = CHR ''e'' \<or> a = CHR ''E'') \<and> (b = CHR ''x'' \<or> b = CHR ''X'')
        \<and> (c = CHR ''i'' \<or> c = CHR ''I'') \<and> (d = CHR ''t'' \<or> d = CHR ''T''))"
proof -
  have "toLowerCase q = ''exit'' \<longleftrightarrow>
     (\<exists>a b c d. q = [a, b, c, d] \<and> to_lower_char a = CHR ''e'' \<and> to_lower_char b = CHR ''x''
        \<and> to_lower_char c = CHR ''i'' \<and> to_lower_char d = CHR ''t'')"
    unfolding toLowerCase_def by (auto simp: map_eq_Cons_conv)
  then show ?thesis by (simp only: to_lower_char_exit)
qed

lemma on_line_answer:
  assumes "toLowerCase (trim line) \<noteq> ''exit''" and "trim line \<noteq> []"
    and "embedWithGemini env [trim line] (emit (Stdout_write ''Thinking...'') w0) = (Inr qe, w1)"
    and "searchQdrant env (element qe 0) 3 w1 = (Inr ctx, w2)"
    and "askGemini env (trim line) ctx w2 = (Inr a, w4)"
  shows "on_line env line w0 =
           emit Prompt
             (emit (Console_log [JStr (nl @ ''Gemini:''), a])
                (emit (Stdout_write [CHR 0x0D, CHR 0x1B, CHR ''['', CHR ''K'']) w4))"
  using assms by (simp add: on_line_def turn_def)

text \<open>
  Claim C4. \<open>askGemini\<close> always returns an answer and never an error. When the request is
  rejected, or the answer lacks the path \<^verbatim>\<open>candidates[0].content.parts[0].text\<close> (the source
  tests it for truth), the answer is the fixed fallback string. It does not end the process,
  and a turn of the interactive loop whose generation fails prints the fallback string, prompts
  again, and leaves the loop running for the lines that follow.
\<close>

theorem askGemini_never_fails:
  "(\<exists>a. fst (askGemini env query context w) = Inr a)
   \<and> ((\<exists>m r. net env (length (sent w)) = Rejected m r)
        \<or> (\<exists>d. net env (length (sent w)) = Resolved d \<and> \<not> truthy (answer_path d)) \<longrightarrow>
       fst (askGemini env query context w) = Inr (JStr fallback_answer))
   \<and> exit_code (snd (askGemini env query context w)) = exit_code w
   \<and> (toLowerCase (trim line) \<noteq> ''exit'' \<and> trim line \<noteq> []
        \<and> embedWithGemini env [trim line] (emit (Stdout_write ''Thinking...'') w0) = (Inr qe, w1)
        \<and> searchQdrant env (element qe 0) 3 w1 = (Inr ctx, w2)
        \<and> askGemini_try env (trim line) ctx w2 = (Inl e, w3) \<longrightarrow>
       on_line env line w0 =
         emit Prompt
           (emit (Console_log [JStr (nl @ ''Gemini:''), JStr fallback_answer])
              (emit (Stdout_write [CHR 0x0D, CHR 0x1B, CHR ''['', CHR ''K''])
                 (snd (askGemini env (trim line) ctx w2))))
       \<and> exit_code (on_line env line w0) = exit_code w0
       \<and> (exit_code w0 = None \<longrightarrow>
            chat env (line # rest) w0 = chat env rest (on_line env line w0)))"
proof (intro conjI impI)
  show "\<exists>a. fst (askGemini env query context w) = Inr a"
    by (rule askGemini_total)
next
  assume "(\<exists>m r. net env (length (sent w)) = Rejected m r)
        \<or> (\<exists>d. net env (length (sent w)) = Resolved d \<and> \<not> truthy (answer_path d))"
  then obtain e where "fst (askGemini_try env query context w) = Inl e"
    using askGemini_try_fails by blast
  then show "fst (askGemini env query context w) = Inr (JStr fallback_answer)"
    by (rule askGemini_fallback)
next
  show "exit_code (snd (askGemini env query context w)) = exit_code w"
    by simp
next
  assume a: "toLowerCase (trim line) \<noteq> ''exit'' \<and> trim line \<noteq> []
        \<and> embedWithGemini env [trim line] (emit (Stdout_write ''Thinking...'') w0) = (Inr qe, w1)
        \<and> searchQdrant env (element qe 0) 3 w1 = (Inr ctx, w2)
        \<and> askGemini_try env (trim line) ctx w2 = (Inl e, w3)"
  then have "fst (askGemini env (trim line) ctx w2) = Inr (JStr fallback_answer)"
    using askGemini_fallback[of env "trim line" ctx w2 e] by simp
  then have "askGemini env (trim line) ctx w2
               = (Inr (JStr fallback_answer), snd (askGemini env (trim line) ctx w2))"
    by (simp add: prod_eq_iff)
  with a show "on_line env line w0 =
         emit Prompt
           (emit (Console_log [JStr (nl @ ''Gemini:''), JStr fallback_answer])
              (emit (Stdout_write [CHR 0x0D, CHR 0x1B, CHR ''['', CHR ''K''])
                 (snd (askGemini env (trim line) ctx w2))))"
    using on_line_answer[of line env w0 qe w1 ctx w2 "JStr fallback_answer"
                            "snd (askGemini env (trim line) ctx w2)"]
    by blast
  from a show "exit_code (on_line env line w0) = exit_code w0"
    by (simp add: on_line_keeps_running)
  from a show "exit_code w0 = None \<Longrightarrow>
      chat env (line # rest) w0 = chat env rest (on_line env line w0)"
    using chat_continues[of line w0 env rest] by blast
qed

theorem askGemini_never_fails_witness:
  "fst (askGemini (example_env (script [Rejected ''timeout'' None])) ''hi'' ''ABCD'' initial_world)
     = Inr (JStr fallback_answer)
   \<and> fst (askGemini (example_env (script [Resolved (JObj [(''candidates'', JArr [])])]))
            ''hi'' ''ABCD'' initial_world)
     = Inr (JStr fallback_answer)
   \<and> exit_code (on_line
        (example_env (script [vector_response (JArr [JNum 1]), search_response [hit ''ABCD''],
                              Rejected ''timeout'' None]))
        ''hi'' initial_world) = None
   \<and> Console_log [JStr (nl @ ''Gemini:''), JStr fallback_answer]
       \<in> set (console (on_line
            (example_env (script [vector_response (JArr [JNum 1]), search_response [hit ''ABCD''],
                                  Rejected ''timeout'' None]))
            ''hi'' initial_world))
   \<and> chat (example_env (script [vector_response (JArr [JNum 1]), search_response [hit ''ABCD''],
                                 Rejected ''timeout'' None]))
        [''hi'', ''exit''] initial_world
      = chat (example_env (script [vector_response (JArr [JNum 1]), search_response [hit ''ABCD''],
                                   Rejected ''timeout'' None]))
          [''exit'']
          (on_line (example_env (script [vector_response (JArr [JNum 1]),
                                         search_response [hit ''ABCD''], Rejected ''timeout'' None]))
             ''hi'' initial_world)"
proof -
  let ?E1 = "example_env (script [Rejected ''timeout'' None])"
  let ?E2 = "example_env (script [Resolved (JObj [(''candidates'', JArr [])])])"
  let ?E = "example_env (script [vector_response (JArr [JNum 1]), search_response [hit ''ABCD''],
                                 Rejected ''timeout'' None])"
  let ?w0 = "emit (Stdout_write ''Thinking...'') initial_world"
  let ?w1 = "snd (embedWithGemini ?E [trim ''hi''] ?w0)"
  let ?w2 = "snd (searchQdrant ?E (element [JArr [JNum 1]] 0) 3 ?w1)"
  let ?w3 = "snd (askGemini_try ?E (trim ''hi'') ''ABCD'' ?w2)"
  have g1: "(\<exists>m r. net ?E1 (length (sent initial_world)) = Rejected m r)
        \<or> (\<exists>d. net ?E1 (length (sent initial_world)) = Resolved d \<and> \<not> truthy (answer_path d))"
    by (simp add: fixture_simps)
  have g2: "(\<exists>m r. net ?E2 (length (sent initial_world)) = Rejected m r)
        \<or> (\<exists>d. net ?E2 (length (sent initial_world)) = Resolved d \<and> \<not> truthy (answer_path d))"
    by (simp add: fixture_simps value_simps)
  have h1: "toLowerCase (trim ''hi'') \<noteq> ''exit''" and h2: "trim ''hi'' \<noteq> []"
    by (simp_all add: string_simps)
  have "fst (embedWithGemini ?E [trim ''hi''] ?w0) = Inr [JArr [JNum 1]]"
    by (simp add: fixture_simps value_simps embedWithGemini_def axios_def embedding_values_def)
  then have h3: "embedWithGemini ?E [trim ''hi''] ?w0 = (Inr [JArr [JNum 1]], ?w1)"
    by (simp add: prod_eq_iff)
  have len1: "length (sent ?w1) = 1"
    by (simp add: fixture_simps value_simps embedWithGemini_def axios_def embedding_values_def)
  have net1: "net ?E 1 = search_response [hit ''ABCD'']" and net2: "net ?E 2 = Rejected ''timeout'' None"
    by (simp_all add: example_env_def numeral_2_eq_2)
  have "fst (searchQdrant ?E (element [JArr [JNum 1]] 0) 3 ?w1) = Inr ''ABCD''"
    using len1 net1
    by (simp add: searchQdrant_result search_response_def hit_def value_simps context_of_def
                  payload_text_def array_join_def)
  then have h4: "searchQdrant ?E (element [JArr [JNum 1]] 0) 3 ?w1 = (Inr ''ABCD'', ?w2)"
    by (simp add: prod_eq_iff)
  have len2: "length (sent ?w2) = 2"
    using len1 by (simp add: searchQdrant_def axios_def Let_def split: outcome.splits)
  have "fst (askGemini_try ?E (trim ''hi'') ''ABCD'' ?w2) = Inl (AxiosError ''timeout'' None)"
    using len2 net2 by (simp add: askGemini_try_def axios_def Let_def example_env_def falsy_var_def)
  then have h5: "askGemini_try ?E (trim ''hi'') ''ABCD'' ?w2 = (Inl (AxiosError ''timeout'' None), ?w3)"
    by (simp add: prod_eq_iff)
  have x: "exit_code initial_world = None" by (simp add: initial_world_def)
  note main = askGemini_never_fails
      [of ?E "''hi''" "''ABCD''" initial_world "''hi''" initial_world "[JArr [JNum 1]]" ?w1
          "''ABCD''" ?w2 "AxiosError ''timeout'' None" ?w3 "[''exit'']"]
  from askGemini_never_fails[of ?E1 "''hi''" "''ABCD''" initial_world] g1
  have c1: "fst (askGemini ?E1 ''hi'' ''ABCD'' initial_world) = Inr (JStr fallback_answer)"
    by blast
  from askGemini_never_fails[of ?E2 "''hi''" "''ABCD''" initial_world] g2
  have c2: "fst (askGemini ?E2 ''hi'' ''ABCD'' initial_world) = Inr (JStr fallback_answer)"
    by blast
  from main h1 h2 h3 h4 h5 x
  have c3: "on_line ?E ''hi'' initial_world =
         emit Prompt
           (emit (Console_log [JStr (nl @ ''Gemini:''), JStr fallback_answer])
              (emit (Stdout_write [CHR 0x0D, CHR 0x1B, CHR ''['', CHR ''K''])
                 (snd (askGemini ?E (trim ''hi'') ''ABCD'' ?w2))))"
    and c4: "exit_code (on_line ?E ''hi'' initial_world) = None"
    and c5: "chat ?E [''hi'', ''exit''] initial_world = chat ?E [''exit''] (on_line ?E ''hi'' initial_world)"
    by simp_all
  from c3 have c6: "Console_log [JStr (nl @ ''Gemini:''), JStr fallback_answer]
       \<in> set (console (on_line ?E ''hi'' initial_world))"
    by simp
  from c1 c2 c4 c5 c6 show ?thesis by blast
qed

text \<open>
  Claim C6. A line that is empty or only white space trims to the empty string, and the
  handler then only prompts again: no request is sent and the process goes on. A line that
  trims to the four letters of \<^verbatim>\<open>exit\<close>, each in either case, ends the process with
  exit code 0, without a request; the loop handles no further line.
\<close>

theorem on_line_blank_or_exit:
  "((\<forall>c\<in>set line. is_space c) \<longrightarrow> trim line = [])
   \<and> (trim line = [] \<longrightarrow>
        on_line env line w = emit Prompt w
        \<and> sent (on_line env line w) = sent w
        \<and> exit_code (on_line env line w) = exit_code w)
   \<and> ((\<exists>a b c d. trim line = [a, b, c, d]
          \<and> (a = CHR ''e'' \<or> a = CHR ''E'') \<and> (b = CHR ''x'' \<or> b = CHR ''X'')
          \<and> (c = CHR ''i'' \<or> c = CHR ''I'') \<and> (d = CHR ''t'' \<or> d = CHR ''T'')) \<longrightarrow>
        exit_code (on_line env line w) = Some 0
        \<and> sent (on_line env line w) = sent w
        \<and> chat env (line # rest) w = on_line env line w)"
proof (intro conjI impI)
  assume "\<forall>c\<in>set line. is_space c"
  then show "trim line = []" by (rule trim_whitespace)
next
  assume "trim line = []"
  then show "on_line env line w = emit Prompt w"
    and "sent (on_line env line w) = sent w"
    and "exit_code (on_line env line w) = exit_code w"
    by (simp_all add: on_line_def toLowerCase_def)
next
  assume "\<exists>a b c d. trim line = [a, b, c, d]
          \<and> (a = CHR ''e'' \<or> a = CHR ''E'') \<and> (b = CHR ''x'' \<or> b = CHR ''X'')
          \<and> (c = CHR ''i'' \<or> c = CHR ''I'') \<and> (d = CHR ''t'' \<or> d = CHR ''T'')"
  then have "toLowerCase (trim line) = ''exit''"
    by (simp only: toLowerCase_exit)
  then show "exit_code (on_line env line w) = Some 0"
    and "sent (on_line env line w) = sent w"
    and "chat env (line # rest) w = on_line env line w"
    by (simp_all add: on_line_def Let_def)
qed

theorem on_line_blank_or_exit_witness:
  "is_space (CHR '' '') \<and> is_space (CHR 0x09)
   \<and> on_line (example_env (script [])) [CHR '' '', CHR 0x09] initial_world = emit Prompt initial_world
   \<and> sent (on_line (example_env (script [])) [CHR '' '', CHR 0x09] initial_world) = []
   \<and> trim ''  ExIt '' = ''ExIt''
   \<and> exit_code (on_line (example_env (script [])) ''  ExIt '' initial_world) = Some 0
   \<and> sent (on_line (example_env (script [])) ''  ExIt '' initial_world) = []"
proof -
  have h1: "\<forall>c\<in>set [CHR '' '', CHR 0x09]. is_space c"
    by (simp add: is_space_def)
  have t: "trim ''  ExIt '' = ''ExIt''"
    by (simp add: trim_def is_space_def)
  then have h2: "\<exists>a b c d. trim ''  ExIt '' = [a, b, c, d]
          \<and> (a = CHR ''e'' \<or> a = CHR ''E'') \<and> (b = CHR ''x'' \<or> b = CHR ''X'')
          \<and> (c = CHR ''i'' \<or> c = CHR ''I'') \<and> (d = CHR ''t'' \<or> d = CHR ''T'')"
    by simp
  from on_line_blank_or_exit[of "[CHR '' '', CHR 0x09]" "example_env (script [])" initial_world "[]"] h1
  have "on_line (example_env (script [])) [CHR '' '', CHR 0x09] initial_world = emit Prompt initial_world"
    and "sent (on_line (example_env (script [])) [CHR '' '', CHR 0x09] initial_world)
           = sent initial_world"
    by blast+
  moreover
  from on_line_blank_or_exit[of "''  ExIt ''" "example_env (script [])" initial_world "[]"] h2
  have "exit_code (on_line (example_env (script [])) ''  ExIt '' initial_world) = Some 0"
    and "sent (on_line (example_env (script [])) ''  ExIt '' initial_world) = sent initial_world"
    by blast+
  ultimately show ?thesis using h1 t by (simp add: initial_world_def)
qed

text \<open>
  Claim C7. In a turn of the interactive loop, an error raised by the embedding of the query
  or by the search is caught in that turn: its message is reported, the prompt is shown again,
  the process has not exited, and the loop goes on with the lines that follow.
\<close>

theorem retrieval_failure_keeps_session:
  assumes "toLowerCase (trim line) \<noteq> ''exit''" and "trim line \<noteq> []"
    and "embedWithGemini env [trim line] (emit (Stdout_write ''Thinking...'') w) = (Inl e, w')
         \<or> (\<exists>qe w1. embedWithGemini env [trim line] (emit (Stdout_write ''Thinking...'') w)
                       = (Inr qe, w1)
                     \<and> searchQdrant env (element qe 0) 3 w1 = (Inl e, w'))"
  shows "on_line env line w =
           emit Prompt (emit (Console_error [JStr (nl @ ''Error:''), JStr (message e)]) w')
         \<and> exit_code (on_line env line w) = exit_code w
         \<and> (exit_code w = None \<longrightarrow>
              chat env (line # rest) w = chat env rest (on_line env line w))"
proof (intro conjI)
  from assms(3) have "turn env (trim line) w = (Inl e, w')"
    by (auto simp: turn_def)
  with assms(1,2) show "on_line env line w =
           emit Prompt (emit (Console_error [JStr (nl @ ''Error:''), JStr (message e)]) w')"
    by (simp add: on_line_def)
  show "exit_code (on_line env line w) = exit_code w"
    using assms(1) by (rule on_line_keeps_running)
  show "exit_code w = None \<longrightarrow> chat env (line # rest) w = chat env rest (on_line env line w)"
    using chat_continues[OF assms(1), of w env rest] by blast
qed

theorem retrieval_failure_keeps_session_witness:
  "toLowerCase (trim ''hi'') \<noteq> ''exit'' \<and> trim ''hi'' \<noteq> []
   \<and> fst (embedWithGemini (example_env (script [Resolved (JObj [])])) [trim ''hi'']
            (emit (Stdout_write ''Thinking...'') initial_world))
       = Inl (Error ''Invalid response from Gemini API'')
   \<and> exit_code (on_line (example_env (script [Resolved (JObj [])])) ''hi'' initial_world) = None
   \<and> last (console (on_line (example_env (script [Resolved (JObj [])])) ''hi'' initial_world))
       = Prompt
   \<and> chat (example_env (script [Resolved (JObj [])])) [''hi'', ''exit''] initial_world
       = chat (example_env (script [Resolved (JObj [])])) [''exit'']
           (on_line (example_env (script [Resolved (JObj [])])) ''hi'' initial_world)
   \<and> fst (searchQdrant (example_env (script [vector_response (JArr [JNum 1]), Resolved (JObj [])]))
            (JArr [JNum 1]) 3
            (snd (embedWithGemini
                    (example_env (script [vector_response (JArr [JNum 1]), Resolved (JObj [])]))
                    [trim ''hi''] (emit (Stdout_write ''Thinking...'') initial_world))))
       = Inl (Error ''Invalid search response from Qdrant'')
   \<and> exit_code (on_line (example_env (script [vector_response (JArr [JNum 1]), Resolved (JObj [])]))
                  ''hi'' initial_world) = None
   \<and> last (console (on_line
                      (example_env (script [vector_response (JArr [JNum 1]), Resolved (JObj [])]))
                      ''hi'' initial_world))
       = Prompt"
proof -
  let ?E = "example_env (script [Resolved (JObj [])])"
  let ?F = "example_env (script [vector_response (JArr [JNum 1]), Resolved (JObj [])])"
  let ?w0 = "emit (Stdout_write ''Thinking...'') initial_world"
  let ?e = "Error ''Invalid response from Gemini API''"
  let ?s = "Error ''Invalid search response from Qdrant''"
  let ?w1 = "snd (embedWithGemini ?F [trim ''hi''] ?w0)"
  let ?w2 = "snd (searchQdrant ?F (JArr [JNum 1]) 3 ?w1)"
  have h1: "toLowerCase (trim ''hi'') \<noteq> ''exit''" and h2: "trim ''hi'' \<noteq> []"
    by (simp_all add: string_simps)
  have f: "fst (embedWithGemini ?E [trim ''hi''] ?w0) = Inl ?e"
    by (simp add: fixture_simps value_simps embedWithGemini_def axios_def embedding_values_def)
  then have h3: "embedWithGemini ?E [trim ''hi''] ?w0
                   = (Inl ?e, snd (embedWithGemini ?E [trim ''hi''] ?w0))
                 \<or> (\<exists>qe w1. embedWithGemini ?E [trim ''hi''] ?w0 = (Inr qe, w1)
                       \<and> searchQdrant ?E (element qe 0) 3 w1
                           = (Inl ?e, snd (embedWithGemini ?E [trim ''hi''] ?w0)))"
    by (simp add: prod_eq_iff)
  have "fst (embedWithGemini ?F [trim ''hi''] ?w0) = Inr [JArr [JNum 1]]"
    by (simp add: fixture_simps value_simps embedWithGemini_def axios_def embedding_values_def)
  then have g1: "embedWithGemini ?F [trim ''hi''] ?w0 = (Inr [JArr [JNum 1]], ?w1)"
    by (simp add: prod_eq_iff)
  have len1: "length (sent ?w1) = 1"
    by (simp add: fixture_simps value_simps embedWithGemini_def axios_def embedding_values_def)
  have net1: "net ?F 1 = Resolved (JObj [])"
    by (simp add: example_env_def)
  have g: "fst (searchQdrant ?F (JArr [JNum 1]) 3 ?w1) = Inl ?s"
    using len1 net1 by (simp add: searchQdrant_result value_simps)
  then have g2: "searchQdrant ?F (element [JArr [JNum 1]] 0) 3 ?w1 = (Inl ?s, ?w2)"
    by (simp add: prod_eq_iff element_def)
  from g1 g2 have h4: "embedWithGemini ?F [trim ''hi''] ?w0 = (Inl ?s, ?w2)
                 \<or> (\<exists>qe w1. embedWithGemini ?F [trim ''hi''] ?w0 = (Inr qe, w1)
                       \<and> searchQdrant ?F (element qe 0) 3 w1 = (Inl ?s, ?w2))"
    by blast
  have x: "exit_code initial_world = None" by (simp add: initial_world_def)
  from retrieval_failure_keeps_session[OF h1 h2 h3, of "[''exit'']"] x
  have a: "on_line ?E ''hi'' initial_world =
           emit Prompt (emit (Console_error [JStr (nl @ ''Error:''), JStr (message ?e)])
                          (snd (embedWithGemini ?E [trim ''hi''] ?w0)))"
    and b: "exit_code (on_line ?E ''hi'' initial_world) = None"
    and c: "chat ?E [''hi'', ''exit''] initial_world = chat ?E [''exit''] (on_line ?E ''hi'' initial_world)"
    by simp_all
  from retrieval_failure_keeps_session[OF h1 h2 h4, of "[]"] x
  have a': "on_line ?F ''hi'' initial_world =
           emit Prompt (emit (Console_error [JStr (nl @ ''Error:''), JStr (message ?s)]) ?w2)"
    and b': "exit_code (on_line ?F ''hi'' initial_world) = None"
    by simp_all
  from a have l: "last (console (on_line ?E ''hi'' initial_world)) = Prompt" by simp
  from a' have l': "last (console (on_line ?F ''hi'' initial_world)) = Prompt" by simp
  from h1 h2 f b c l g b' l' show ?thesis by blast
qed

section \<open>Properties of the start-up phase\<close>

lemma startChat_world [simp]:
  "fst (startChat env w) = Inr ()"
  "exit_code (snd (startChat env w)) = exit_code w"
  "chat_started (snd (startChat env w))"
  by (simp_all add: startChat_def)

lemma index_document_outcome:
  assumes "index_document env chunks w = (r, w')"
  shows "exit_code w' = exit_code w"
    and "(\<exists>e. r = Inl e) \<and> chat_started w' = chat_started w
         \<or> ((\<exists>d. net env (length (sent w)) = Resolved d)
                \<or> (\<exists>m x. net env (length (sent w)) = Rejected m x \<and> map_option fst x = Some 409))
            \<and> (\<forall>i<length chunks. \<exists>d. net env (Suc (length (sent w)) + i) = Resolved d
                    \<and> truthy (opt (opt d ''embedding'') ''values''))
            \<and> (\<exists>d. net env (Suc (length (sent w)) + length chunks) = Resolved d)"
proof -
  let ?w0 = "emit (Console_log [JStr (''Processing ''
               @ number_to_string env (of_nat (length chunks)) @ '' chunks...'')]) w"
  let ?ids = "map (\<lambda>i. i + 1) [0..<length chunks]"
  obtain r1 w1 where c: "createCollection env 768 ?w0 = (r1, w1)"
    by (cases "createCollection env 768 ?w0")
  then have w1: "exit_code w1 = exit_code w" "chat_started w1 = chat_started w"
    "length (sent w1) = Suc (length (sent w))"
    using createCollection_world[of env 768 ?w0] by simp_all
  from c have r1: "r1 = (case net env (length (sent w)) of
        Resolved d \<Rightarrow> Inr ()
      | Rejected m x \<Rightarrow> if map_option fst x = Some 409 then Inr () else Inl (AxiosError m x))"
    using createCollection_result[of env 768 ?w0] by simp
  have both: "exit_code w' = exit_code w \<and>
     ((\<exists>e. r = Inl e) \<and> chat_started w' = chat_started w
         \<or> ((\<exists>d. net env (length (sent w)) = Resolved d)
                \<or> (\<exists>m x. net env (length (sent w)) = Rejected m x \<and> map_option fst x = Some 409))
            \<and> (\<forall>i<length chunks. \<exists>d. net env (Suc (length (sent w)) + i) = Resolved d
                    \<and> truthy (opt (opt d ''embedding'') ''values''))
            \<and> (\<exists>d. net env (Suc (length (sent w)) + length chunks) = Resolved d))"
  proof (cases r1)
    case (Inl e)
    with assms c w1 show ?thesis
      by (auto simp: index_document_def Let_def)
  next
    case (Inr u)
    with r1 have ok1: "(\<exists>d. net env (length (sent w)) = Resolved d)
            \<or> (\<exists>m x. net env (length (sent w)) = Rejected m x \<and> map_option fst x = Some 409)"
      by (auto split: outcome.splits if_splits)
    obtain r2 w2 where e: "embedWithGemini env chunks w1 = (r2, w2)"
      by (cases "embedWithGemini env chunks w1")
    then have w2: "exit_code w2 = exit_code w" "chat_started w2 = chat_started w"
      using embedWithGemini_world[of env chunks w1] w1 by simp_all
    show ?thesis
    proof (cases r2)
      case (Inl err)
      with assms c Inr e w2 show ?thesis
        by (auto simp: index_document_def Let_def)
    next
      case vs: (Inr vs)
      with e have ok2: "\<forall>i<length chunks. \<exists>d. net env (Suc (length (sent w)) + i) = Resolved d
                    \<and> truthy (opt (opt d ''embedding'') ''values'')"
        and len2: "length (sent w2) = Suc (length (sent w)) + length chunks"
        using embedWithGemini_sent[of env chunks w1 vs w2] w1 by simp_all
      obtain r3 w3 where u: "upsertToQdrant env ?ids chunks vs w2 = (r3, w3)"
        by (cases "upsertToQdrant env ?ids chunks vs w2")
      then have w3: "exit_code w3 = exit_code w" "chat_started w3 = chat_started w"
        using upsertToQdrant_world[of env ?ids chunks vs w2] w2 by simp_all
      from u have r3: "r3 = (case net env (Suc (length (sent w)) + length chunks) of
          Resolved d \<Rightarrow> Inr () | Rejected m x \<Rightarrow> Inl (AxiosError m x))"
        using upsertToQdrant_result[of env ?ids chunks vs w2] len2 by simp
      show ?thesis
      proof (cases r3)
        case (Inl err)
        with assms c Inr e vs u w3 show ?thesis
          by (auto simp: index_document_def Let_def)
      next
        case fin: (Inr u3)
        with r3 have ok3: "\<exists>d. net env (Suc (length (sent w)) + length chunks) = Resolved d"
          by (auto split: outcome.splits)
        from assms c Inr e vs u fin have "(r, w') = startChat env w3"
          by (simp add: index_document_def Let_def)
        then have "exit_code w' = exit_code w3"
          using startChat_world(2)[of env w3] by (metis snd_conv)
        with w3 ok1 ok2 ok3 show ?thesis by simp
      qed
    qed
  qed
  from both show "exit_code w' = exit_code w" by simp
  from both show "(\<exists>e. r = Inl e) \<and> chat_started w' = chat_started w
         \<or> ((\<exists>d. net env (length (sent w)) = Resolved d)
                \<or> (\<exists>m x. net env (length (sent w)) = Rejected m x \<and> map_option fst x = Some 409))
            \<and> (\<forall>i<length chunks. \<exists>d. net env (Suc (length (sent w)) + i) = Resolved d
                    \<and> truthy (opt (opt d ''embedding'') ''values''))
            \<and> (\<exists>d. net env (Suc (length (sent w)) + length chunks) = Resolved d)"
    by simp
qed

lemma fatal_world:
  "fatal (Inl e, w) = (Inr (), w') \<Longrightarrow> exit_code w' = Some 1 \<and> chat_started w' = chat_started w"
  by (auto simp: fatal_def process_exit_def emit_def)

lemma uncaught_world [simp]:
  "exit_code (uncaught e w) = Some 1"
  "chat_started (uncaught e w) = chat_started w"
  by (simp_all add: uncaught_def process_exit_def emit_def)

lemma program_outcome:
  "\<exists>w. program env = Some w
     \<and> (exit_code w = Some 1 \<and> \<not> chat_started w
         \<or> \<not> falsy_var (GEMINI_API_KEY env) \<and> \<not> falsy_var (QDRANT_API_KEY env)
            \<and> \<not> falsy_var (QDRANT_HOST env) \<and> \<not> falsy_var (COLLECTION_NAME env)
            \<and> (\<exists>d. net env 0 = Resolved d)
            \<and> (\<exists>t chunks. text_txt env = Inr t \<and> chunkText t 500 = Some chunks
                 \<and> ((\<exists>d. net env 1 = Resolved d)
                      \<or> (\<exists>m x. net env 1 = Rejected m x \<and> map_option fst x = Some 409))
                 \<and> (\<forall>i<length chunks. \<exists>d. net env (2 + i) = Resolved d
                        \<and> truthy (opt (opt d ''embedding'') ''values''))
                 \<and> (\<exists>d. net env (2 + length chunks) = Resolved d)))"
proof (cases "falsy_var (GEMINI_API_KEY env) \<or> falsy_var (QDRANT_API_KEY env)
         \<or> falsy_var (QDRANT_HOST env) \<or> falsy_var (COLLECTION_NAME env)")
  case True
  then have "program env = Some (uncaught (Error ''Missing required environment variables'') initial_world)"
    by (simp add: program_def)
  then show ?thesis by (simp add: initial_world_def)
next
  case cfg: False
  let ?w0 = "emit (Console_log [JStr ''Testing Gemini API connection...'']) initial_world"
  let ?rq = "\<lparr>meth = GET,
              url = ''https://generativelanguage.googleapis.com/v1beta/models?key=''
                    @ var_string (GEMINI_API_KEY env),
              body = JUndefined, headers = [], timeout = None\<rparr>"
  obtain r1 w1 where ax: "axios env ?rq ?w0 = (r1, w1)"
    by (cases "axios env ?rq ?w0")
  then have w1: "exit_code w1 = None" "\<not> chat_started w1" "length (sent w1) = 1"
    using axios_world[of env ?rq ?w0] by (simp_all add: initial_world_def)
  from ax have r1: "r1 = (case net env 0 of Resolved d \<Rightarrow> Inr d
                          | Rejected m r \<Rightarrow> Inl (AxiosError m r))"
    using axios_result[of env ?rq ?w0] by (simp add: initial_world_def)
  show ?thesis
  proof (cases r1)
    case (Inl e)
    with ax have "main env initial_world
                    = Some (Inl (Error (''Gemini API connection failed: '' @ message e)), w1)"
      by (simp add: main_def)
    with cfg have "program env
                    = Some (uncaught (Error (''Gemini API connection failed: '' @ message e)) w1)"
      by (simp add: program_def)
    with w1 show ?thesis by simp
  next
    case (Inr d)
    with r1 have net0: "\<exists>d. net env 0 = Resolved d"
      by (auto split: outcome.splits)
    show ?thesis
    proof (cases "text_txt env")
      case (Inl e)
      with ax Inr have m: "main env initial_world = Some (fatal (Inl e, w1))"
        by (simp add: main_def readFile_def)
      obtain w2 where f: "fatal (Inl e, w1) = (Inr (), w2)"
        by (simp add: fatal_def)
      with m cfg have "program env = Some w2" by (simp add: program_def)
      with fatal_world[OF f] w1 show ?thesis by simp
    next
      case rd: (Inr t)
      obtain chunks where ch: "chunkText t 500 = Some chunks"
        using chunkText_pos[of 500 t] by auto
      obtain r w' where ix: "index_document env chunks w1 = (r, w')"
        by (cases "index_document env chunks w1")
      from ax Inr rd ch ix have m: "main env initial_world = Some (fatal (r, w'))"
        by (simp add: main_def readFile_def)
      from index_document_outcome[OF ix] w1 have x: "exit_code w' = None"
        and alt: "(\<exists>e. r = Inl e) \<and> \<not> chat_started w'
         \<or> ((\<exists>d. net env 1 = Resolved d)
                \<or> (\<exists>m x. net env 1 = Rejected m x \<and> map_option fst x = Some 409))
            \<and> (\<forall>i<length chunks. \<exists>d. net env (2 + i) = Resolved d
                    \<and> truthy (opt (opt d ''embedding'') ''values''))
            \<and> (\<exists>d. net env (2 + length chunks) = Resolved d)"
        by simp_all
      show ?thesis
      proof (cases r)
        case (Inl e)
        obtain w2 where f: "fatal (Inl e, w') = (Inr (), w2)"
          by (simp add: fatal_def)
        with m Inl cfg have "program env = Some w2" by (simp add: program_def)
        moreover from alt Inl have "\<not> chat_started w'
          \<or> ((\<exists>d. net env 1 = Resolved d)
                \<or> (\<exists>m x. net env 1 = Rejected m x \<and> map_option fst x = Some 409))
            \<and> (\<forall>i<length chunks. \<exists>d. net env (2 + i) = Resolved d
                    \<and> truthy (opt (opt d ''embedding'') ''values''))
            \<and> (\<exists>d. net env (2 + length chunks) = Resolved d)"
          by blast
        ultimately show ?thesis
          using fatal_world[OF f] cfg net0 rd ch by auto
      next
        case ok: (Inr u)
        with m cfg have "program env = Some w'"
          by (simp add: program_def fatal_def)
        with alt ok cfg net0 rd ch show ?thesis by auto
      qed
    qed
  qed
qed

text \<open>
  Claim C8. Every failure of the start-up phase is fatal: a required variable that is absent
  or empty, a rejected connectivity check (call 0), a failed read of the document, a rejected
  creation of the collection other than 409 (call 1), a chunk whose embedding call is rejected
  or answered without a vector (calls 2 onwards), a rejected upsert (the call after these).
  In each case the process ends with exit code 1 and the interactive loop is not entered: no
  typed line is ever handled.
\<close>

theorem startup_failure_fatal:
  assumes "falsy_var (GEMINI_API_KEY env) \<or> falsy_var (QDRANT_API_KEY env)
      \<or> falsy_var (QDRANT_HOST env) \<or> falsy_var (COLLECTION_NAME env)
      \<or> (\<exists>m r. net env 0 = Rejected m r)
      \<or> (\<exists>e. text_txt env = Inl e)
      \<or> (\<exists>m r. net env 1 = Rejected m r \<and> map_option fst r \<noteq> Some 409)
      \<or> (\<exists>t chunks i. text_txt env = Inr t \<and> chunkText t 500 = Some chunks \<and> i < length chunks
            \<and> (case net env (2 + i) of
                  Rejected m r \<Rightarrow> True
                | Resolved d \<Rightarrow> \<not> truthy (opt (opt d ''embedding'') ''values'')))
      \<or> (\<exists>t chunks m r. text_txt env = Inr t \<and> chunkText t 500 = Some chunks
            \<and> net env (2 + length chunks) = Rejected m r)"
  shows "\<exists>w. program env = Some w \<and> exit_code w = Some 1 \<and> \<not> chat_started w
           \<and> session env lines = Some w"
proof -
  from program_outcome[of env] obtain w where p: "program env = Some w"
    and alt: "exit_code w = Some 1 \<and> \<not> chat_started w
         \<or> \<not> falsy_var (GEMINI_API_KEY env) \<and> \<not> falsy_var (QDRANT_API_KEY env)
            \<and> \<not> falsy_var (QDRANT_HOST env) \<and> \<not> falsy_var (COLLECTION_NAME env)
            \<and> (\<exists>d. net env 0 = Resolved d)
            \<and> (\<exists>t chunks. text_txt env = Inr t \<and> chunkText t 500 = Some chunks
                 \<and> ((\<exists>d. net env 1 = Resolved d)
                      \<or> (\<exists>m x. net env 1 = Rejected m x \<and> map_option fst x = Some 409))
                 \<and> (\<forall>i<length chunks. \<exists>d. net env (2 + i) = Resolved d
                        \<and> truthy (opt (opt d ''embedding'') ''values''))
                 \<and> (\<exists>d. net env (2 + length chunks) = Resolved d))"
    by blast
  have "exit_code w = Some 1 \<and> \<not> chat_started w"
  proof (rule ccontr)
    assume "\<not> (exit_code w = Some 1 \<and> \<not> chat_started w)"
    with alt obtain t chunks where ok:
      "\<not> falsy_var (GEMINI_API_KEY env)" "\<not> falsy_var (QDRANT_API_KEY env)"
      "\<not> falsy_var (QDRANT_HOST env)" "\<not> falsy_var (COLLECTION_NAME env)"
      "\<exists>d. net env 0 = Resolved d"
      "text_txt env = Inr t" "chunkText t 500 = Some chunks"
      "(\<exists>d. net env 1 = Resolved d)
         \<or> (\<exists>m x. net env 1 = Rejected m x \<and> map_option fst x = Some 409)"
      "\<forall>i<length chunks. \<exists>d. net env (2 + i) = Resolved d
          \<and> truthy (opt (opt d ''embedding'') ''values'')"
      "\<exists>d. net env (2 + length chunks) = Resolved d"
      by blast
    from assms ok(1-6) have
      "(\<exists>m r. net env 1 = Rejected m r \<and> map_option fst r \<noteq> Some 409)
      \<or> (\<exists>t chunks i. text_txt env = Inr t \<and> chunkText t 500 = Some chunks \<and> i < length chunks
            \<and> (case net env (2 + i) of
                  Rejected m r \<Rightarrow> True
                | Resolved d \<Rightarrow> \<not> truthy (opt (opt d ''embedding'') ''values'')))
      \<or> (\<exists>t chunks m r. text_txt env = Inr t \<and> chunkText t 500 = Some chunks
            \<and> net env (2 + length chunks) = Rejected m r)"
      by auto
    then show False
    proof (elim disjE exE conjE)
      fix m r assume "net env 1 = Rejected m r" "map_option fst r \<noteq> Some 409"
      with ok(8) show False by auto
    next
      fix t' chunks' i
      assume "text_txt env = Inr t'" "chunkText t' 500 = Some chunks'" "i < length chunks'"
        and bad: "case net env (2 + i) of
                  Rejected m r \<Rightarrow> True
                | Resolved d \<Rightarrow> \<not> truthy (opt (opt d ''embedding'') ''values'')"
      with ok(6,7) have "i < length chunks" by simp
      with ok(9) obtain d where "net env (2 + i) = Resolved d"
        "truthy (opt (opt d ''embedding'') ''values'')" by blast
      with bad show False by simp
    next
      fix t' chunks' m r
      assume "text_txt env = Inr t'" "chunkText t' 500 = Some chunks'"
        "net env (2 + length chunks') = Rejected m r"
      with ok(6,7,10) show False by auto
    qed
  qed
  with p show ?thesis by (simp add: session_def)
qed

theorem startup_failure_fatal_witness:
  "text_txt ((example_env (script [Resolved JNull]))\<lparr>text_txt := Inl (Error ''ENOENT'')\<rparr>)
     = Inl (Error ''ENOENT'')
   \<and> (\<exists>w. program ((example_env (script [Resolved JNull]))\<lparr>text_txt := Inl (Error ''ENOENT'')\<rparr>)
            = Some w
          \<and> exit_code w = Some 1 \<and> \<not> chat_started w
          \<and> session ((example_env (script [Resolved JNull]))\<lparr>text_txt := Inl (Error ''ENOENT'')\<rparr>)
               [''hello''] = Some w)"
  using startup_failure_fatal
          [of "(example_env (script [Resolved JNull]))\<lparr>text_txt := Inl (Error ''ENOENT'')\<rparr>"
              "[''hello'']"]
  by (simp add: example_env_def)

end
